theory Spec2Isabelle
  imports Complex_Main
begin

section \<open>Data model (server/src/data/songs.ts, server/src/GameManager.ts)\<close>

text \<open>
  Scores and score deltas are JavaScript numbers, type \<open>number\<close> below. The round
  counters and the timestamps, which the manager only sets, increments by one and
  compares, are \<open>int\<close>. A value of \<open>Math.random()\<close> is a finite double in [0, 1), given
  by its exact rational value.
\<close>

subsection \<open>JavaScript numbers\<close>

text \<open>
  A number is NaN, an infinity, or a finite double given by its exact rational value.
  The two zeros are one value: addition, \<open>Math.max\<close> and the comparisons tell them apart
  only in the sign of a zero result.
\<close>

datatype number = NaN | PosInf | NegInf | Fin rat

text \<open>
  Rounding to binary64, to nearest, ties to even. \<open>exponent a\<close>, for \<open>a > 0\<close>, is the
  binary exponent of \<open>a\<close> kept within the range of the format: the \<open>e\<close> with
  \<open>2^e \<le> a < 2^(e+1)\<close>, at least -1022 (below it are the subnormals) and at most 1023.
  \<open>ulp a\<close> is the spacing of the doubles at \<open>a\<close>, the 52 fraction bits below that exponent.
  \<open>fl x\<close> is the multiple of the spacing nearest to \<open>x\<close>, and \<open>round64 x\<close> is the double
  the operation returns, an infinity where the magnitude reaches \<open>2^1024\<close>.
\<close>

function expUp :: "rat \<Rightarrow> int \<Rightarrow> int" where
  "expUp a e = (if a < 2 powi (e + 1) \<or> 1023 \<le> e then e else expUp a (e + 1))"
  by pat_completeness auto
termination
  by (relation "measure (\<lambda>(a, e). nat (1023 - e))") auto

function expDown :: "rat \<Rightarrow> int \<Rightarrow> int" where
  "expDown a e = (if 2 powi e \<le> a \<or> e \<le> - 1022 then e else expDown a (e - 1))"
  by pat_completeness auto
termination
  by (relation "measure (\<lambda>(a, e). nat (e + 1022))") auto

declare expUp.simps [simp del] expDown.simps [simp del]

definition exponent :: "rat \<Rightarrow> int" where
  "exponent a = (if 1 \<le> a then expUp a 0 else expDown a (- 1))"

definition ulp :: "rat \<Rightarrow> rat" where
  "ulp a = 2 powi (exponent a - 52)"

definition roundHalfEven :: "rat \<Rightarrow> int" where
  "roundHalfEven q =
     (if q - of_int \<lfloor>q\<rfloor> < 1 / 2 then \<lfloor>q\<rfloor>
      else if 1 / 2 < q - of_int \<lfloor>q\<rfloor> then \<lfloor>q\<rfloor> + 1
      else if even \<lfloor>q\<rfloor> then \<lfloor>q\<rfloor> else \<lfloor>q\<rfloor> + 1)"

definition fl :: "rat \<Rightarrow> rat" where
  "fl x = (if x = 0 then 0 else sgn x * of_int (roundHalfEven (\<bar>x\<bar> / ulp \<bar>x\<bar>)) * ulp \<bar>x\<bar>)"

definition round64 :: "rat \<Rightarrow> number" where
  "round64 x =
     (if 2 ^ 1024 \<le> fl x then PosInf else if fl x \<le> - (2 ^ 1024) then NegInf else Fin (fl x))"

text \<open>\<open>a + b\<close>.\<close>

fun js_add :: "number \<Rightarrow> number \<Rightarrow> number" where
  "js_add (Fin x) (Fin y) = round64 (x + y)"
| "js_add NaN b = NaN"
| "js_add a NaN = NaN"
| "js_add PosInf NegInf = NaN"
| "js_add NegInf PosInf = NaN"
| "js_add PosInf b = PosInf"
| "js_add a PosInf = PosInf"
| "js_add NegInf b = NegInf"
| "js_add a NegInf = NegInf"

text \<open>\<open>a < b\<close>, \<open>a > b\<close> and \<open>a >= b\<close>: false as soon as one side is NaN.\<close>

fun js_lt :: "number \<Rightarrow> number \<Rightarrow> bool" where
  "js_lt NaN b = False"
| "js_lt a NaN = False"
| "js_lt PosInf b = False"
| "js_lt a NegInf = False"
| "js_lt NegInf b = True"
| "js_lt (Fin x) PosInf = True"
| "js_lt (Fin x) (Fin y) = (x < y)"

definition js_gt :: "number \<Rightarrow> number \<Rightarrow> bool" where
  "js_gt a b = js_lt b a"


text \<open>\<open>Math.max(a, b)\<close>: NaN as soon as one argument is NaN.\<close>

definition Math_max :: "number \<Rightarrow> number \<Rightarrow> number" where
  "Math_max a b = (if a = NaN \<or> b = NaN then NaN else if js_lt a b then b else a)"

subsection \<open>Songs, players, rounds, rooms\<close>

datatype SongType = Intro | Reverse | Emoji

datatype Difficulty = Easy | Medium | Hard

text \<open>
  The optional fields of a song (audioUrl, emojis, year, genre, lyrics) are never read by
  the manager and are left out.
\<close>

record Song =
  song_id :: string
  song_type :: SongType
  title :: string
  artist :: string
  difficulty :: Difficulty

datatype GameState =
  LOBBY | ROUND_LOADING | ROUND_PLAYING | ROUND_LOCKED | ROUND_RESULT | GAME_OVER

text \<open>The avatar is modelled by its index in the palette of 16 emoji.\<close>

record GamePlayer =
  player_id :: string
  socketId :: string
  name :: string
  score :: number
  avatar :: nat
  roomId :: string

record CurrentRound =
  song :: Song
  buzzedPlayerId :: "string option"
  startTime :: int
  buzzTime :: "int option"
  isKaraoke :: bool

text \<open>
  A \<open>GamePlayer\<close> object is shared between the membership map of its room and the
  manager's player index, and \<open>updateScore\<close> mutates it in place. Player objects therefore
  live in a store and both maps hold references. The membership map of a room is a
  JavaScript \<open>Map\<close>, whose iteration order (insertion order) \<open>removePlayer\<close> relies on:
  it is an association list.
\<close>

type_synonym ref = nat

record GameRoom =
  room_id :: string
  hostId :: string
  state :: GameState
  room_players :: "(string \<times> ref) list"
  currentRound :: "CurrentRound option"
  roundNumber :: int
  totalRounds :: int
  songsPlayed :: "string list"

record GameManager =
  rooms :: "string \<rightharpoonup> GameRoom"
  players :: "string \<rightharpoonup> ref"
  store :: "ref \<Rightarrow> GamePlayer"
  next_ref :: ref

text \<open>
  The messages of the thrown errors: 'Room already exists', 'Room not found',
  'Game already started', 'Need at least 2 players to start', 'No songs available',
  'Invalid state transition', 'Player not found in room',
  'Score amount must be between 0 and 10'.
\<close>

datatype error =
  RoomAlreadyExists | RoomNotFound | AlreadyStarted | InsufficientPlayers
  | NoContentAvailable | InvalidStateTransition | PlayerNotInRoom | InvalidScoreAmount

text \<open>Cells of the store beyond \<open>next_ref\<close> hold this filler; no operation reads them.\<close>

definition unallocated :: GamePlayer where
  "unallocated =
     \<lparr>player_id = [], socketId = [], name = [], score = Fin 0, avatar = 0,
       roomId = []\<rparr>"

text \<open>\<open>new GameManager()\<close>: both maps empty.\<close>

definition empty_manager :: GameManager where
  "empty_manager =
     \<lparr>rooms = Map.empty, players = Map.empty, store = (\<lambda>_. unallocated), next_ref = 0\<rparr>"

subsection \<open>The catalog (data/songs.ts)\<close>

definition SONGS :: "Song list" where
  "SONGS =
    [\<lparr>song_id = ''song-001'', song_type = Intro, title = ''Bohemian Rhapsody'',
       artist = ''Queen'', difficulty = Medium\<rparr>,
     \<lparr>song_id = ''song-002'', song_type = Reverse, title = ''Stairway to Heaven'',
       artist = ''Led Zeppelin'', difficulty = Hard\<rparr>,
     \<lparr>song_id = ''song-003'', song_type = Emoji, title = ''Shape of You'',
       artist = ''Ed Sheeran'', difficulty = Easy\<rparr>,
     \<lparr>song_id = ''song-004'', song_type = Intro,
       title = ''Don'' @ [CHR 0x27] @ ''t Stop Believin'' @ [CHR 0x27],
       artist = ''Journey'', difficulty = Medium\<rparr>]"

text \<open>
  \<open>getRandomSong\<close>: \<open>SONGS[Math.floor(Math.random() * SONGS.length)]\<close>, where \<open>r\<close> is the
  value of \<open>Math.random()\<close>. The product is the rounded double product, finite since
  \<open>r\<close> lies in [0, 1); an index out of range reads \<open>undefined\<close>, here \<open>None\<close>.
\<close>

definition getRandomSong :: "rat \<Rightarrow> Song option" where
  "getRandomSong r =
     (let randomIndex = \<lfloor>fl (r * of_nat (length SONGS))\<rfloor>
      in if 0 \<le> randomIndex \<and> randomIndex < int (length SONGS)
         then Some (SONGS ! nat randomIndex) else None)"

subsection \<open>JavaScript Map operations on the membership list\<close>

fun js_set :: "'k \<Rightarrow> 'v \<Rightarrow> ('k \<times> 'v) list \<Rightarrow> ('k \<times> 'v) list" where
  "js_set k v [] = [(k, v)]"
| "js_set k v (p # ps) = (if fst p = k then (k, v) # ps else p # js_set k v ps)"

definition js_delete :: "'k \<Rightarrow> ('k \<times> 'v) list \<Rightarrow> ('k \<times> 'v) list" where
  "js_delete k xs = filter (\<lambda>p. fst p \<noteq> k) xs"

section \<open>GameManager\<close>

subsection \<open>generateRoomId, generateAvatar\<close>

definition toUpperCase_char :: "char \<Rightarrow> char" where
  "toUpperCase_char c =
     (let n = (of_char c :: nat) in if 97 \<le> n \<and> n \<le> 122 then char_of (n - 32) else c)"

text \<open>
  \<open>Math.random().toString(36).substring(2, 8).toUpperCase()\<close>. The parameter is the
  string \<open>Math.random().toString(36)\<close>, the base-36 rendering of the random number.
\<close>

definition generateRoomId :: "string \<Rightarrow> string" where
  "generateRoomId rendered = map toUpperCase_char (take 6 (drop 2 rendered))"

definition generateAvatar :: "rat \<Rightarrow> nat" where
  "generateAvatar r = nat \<lfloor>fl (r * 16)\<rfloor>"

subsection \<open>createRoom, addPlayer, removePlayer\<close>

text \<open>
  \<open>roomId || this.generateRoomId()\<close>: an omitted and an empty \<open>roomId\<close> are both falsy.
  Every operation returns its result (or the error thrown) and the manager as the call
  leaves it.
\<close>

definition createRoom ::
  "string \<Rightarrow> string \<Rightarrow> string option \<Rightarrow> string \<Rightarrow> rat \<Rightarrow> GameManager
     \<Rightarrow> (error + string) \<times> GameManager" where
  "createRoom hostId' hostName roomId' rendered r m =
     (let newRoomId = (case roomId' of
                         None \<Rightarrow> generateRoomId rendered
                       | Some c \<Rightarrow> if c = [] then generateRoomId rendered else c)
      in if rooms m newRoomId \<noteq> None then (Inl RoomAlreadyExists, m)
         else
           let a = next_ref m;
               host = \<lparr>player_id = hostId', socketId = hostId', name = hostName,
                       score = Fin 0,
                       avatar = generateAvatar r, roomId = newRoomId\<rparr>;
               room = \<lparr>room_id = newRoomId, hostId = hostId', state = LOBBY,
                       room_players = js_set hostId' a [], currentRound = None,
                       roundNumber = 0, totalRounds = 10, songsPlayed = []\<rparr>
           in (Inr newRoomId,
               m\<lparr>rooms := (rooms m)(newRoomId \<mapsto> room),
                 players := (players m)(hostId' \<mapsto> a),
                 store := (store m)(a := host),
                 next_ref := Suc a\<rparr>))"

definition addPlayer ::
  "string \<Rightarrow> string \<Rightarrow> string \<Rightarrow> rat \<Rightarrow> GameManager \<Rightarrow> (error + ref) \<times> GameManager" where
  "addPlayer socketId' name' roomId' r m =
     (case rooms m roomId' of
        None \<Rightarrow> (Inl RoomNotFound, m)
      | Some room \<Rightarrow>
          (case map_of (room_players room) socketId' of
             Some a \<Rightarrow> (Inr a, m)
           | None \<Rightarrow>
               let a = next_ref m;
                   player = \<lparr>player_id = socketId', socketId = socketId', name = name',
                             score = Fin 0, avatar = generateAvatar r, roomId = roomId'\<rparr>
               in (Inr a,
                   m\<lparr>rooms := (rooms m)(roomId' \<mapsto>
                                  room\<lparr>room_players := js_set socketId' a (room_players room)\<rparr>),
                     players := (players m)(socketId' \<mapsto> a),
                     store := (store m)(a := player),
                     next_ref := Suc a\<rparr>)))"

text \<open>
  \<open>removePlayer\<close> returns the pair \<open>{room, player}\<close>: the room as the call leaves it and
  the reference of the removed player, each possibly \<open>null\<close>.
\<close>

definition removePlayer ::
  "string \<Rightarrow> GameManager \<Rightarrow> (GameRoom option \<times> ref option) \<times> GameManager" where
  "removePlayer socketId' m =
     (case players m socketId' of
        None \<Rightarrow> ((None, None), m)
      | Some a \<Rightarrow>
          let player = store m a in
          (case rooms m (roomId player) of
             None \<Rightarrow> ((None, Some a), m\<lparr>players := (players m)(socketId' := None)\<rparr>)
           | Some room \<Rightarrow>
               let room1 = room\<lparr>room_players := js_delete socketId' (room_players room)\<rparr>;
                   m1 = m\<lparr>rooms := (rooms m)(roomId player \<mapsto> room1),
                          players := (players m)(socketId' := None)\<rparr>
               in if player_id player = hostId room1 then
                    (case map snd (room_players room1) of
                       newHost # _ \<Rightarrow>
                         let room2 = room1\<lparr>hostId := socketId (store m newHost)\<rparr>
                         in ((Some room2, Some a),
                             m1\<lparr>rooms := (rooms m1)(roomId player \<mapsto> room2)\<rparr>)
                     | [] \<Rightarrow>
                         ((None, Some a), m1\<lparr>rooms := (rooms m1)(room_id room1 := None)\<rparr>))
                  else ((Some room1, Some a), m1)))"

subsection \<open>Operations on one room\<close>

text \<open>
  Every operation from \<open>startGame\<close> on begins with
  \<open>const room = this.rooms.get(roomId); if (!room) throw new Error('Room not found')\<close>
  and then mutates that room object in place. The body of each is a function on the
  room, returning the result (or the error thrown) with the room as the call leaves it;
  \<open>on_room\<close> is the lookup and the write back.
\<close>

definition on_room ::
  "string \<Rightarrow> (GameRoom \<Rightarrow> (error + 'a) \<times> GameRoom) \<Rightarrow> GameManager
     \<Rightarrow> (error + 'a) \<times> GameManager" where
  "on_room roomId' f m =
     (case rooms m roomId' of
        None \<Rightarrow> (Inl RoomNotFound, m)
      | Some room \<Rightarrow>
          (case f room of (res, room') \<Rightarrow> (res, m\<lparr>rooms := (rooms m)(roomId' \<mapsto> room')\<rparr>)))"

definition startGame_room :: "GameRoom \<Rightarrow> (error + unit) \<times> GameRoom" where
  "startGame_room room =
     (if state room \<noteq> LOBBY then (Inl AlreadyStarted, room)
      else if length (room_players room) < 2 then (Inl InsufficientPlayers, room)
      else (Inr (), room\<lparr>state := ROUND_LOADING, roundNumber := 0, songsPlayed := []\<rparr>))"

definition startGame :: "string \<Rightarrow> GameManager \<Rightarrow> (error + unit) \<times> GameManager" where
  "startGame roomId' = on_room roomId' startGame_room"

definition maxAttempts :: nat where
  "maxAttempts = 100"

text \<open>
  The do-while loop of \<open>nextRound\<close>. \<open>rnd k\<close> is the value of the \<open>k\<close>-th call of
  \<open>Math.random()\<close> made by this execution of \<open>nextRound\<close>, counted from 0; \<open>attempts\<close> is
  the counter at the head of the body. The result is the used-set as the loop leaves it
  and the song it ends with.
\<close>

function selectSong ::
  "(nat \<Rightarrow> rat) \<Rightarrow> string list \<Rightarrow> nat \<Rightarrow> string list \<times> Song option" where
  "selectSong rnd played attempts =
     (if Suc attempts \<ge> maxAttempts
      then ([], getRandomSong (rnd (Suc attempts)))
      else (case getRandomSong (rnd attempts) of
              Some s \<Rightarrow>
                if song_id s \<in> set played then selectSong rnd played (Suc attempts)
                else (played, Some s)
            | None \<Rightarrow> (played, None)))"
  by pat_completeness auto
termination
  by (relation "measure (\<lambda>(rnd, played, attempts). maxAttempts - attempts)") auto

declare selectSong.simps [simp del]

definition nextRound_room ::
  "(nat \<Rightarrow> rat) \<Rightarrow> int \<Rightarrow> GameRoom \<Rightarrow> (error + unit) \<times> GameRoom" where
  "nextRound_room rnd now room0 =
     (case (if state room0 = LOBBY then startGame_room room0 else (Inr (), room0)) of
        (Inl e, room) \<Rightarrow> (Inl e, room)
      | (Inr _, room) \<Rightarrow>
          if roundNumber room \<ge> totalRounds room
          then (Inr (), room\<lparr>state := GAME_OVER, currentRound := None\<rparr>)
          else
            (case selectSong rnd (songsPlayed room) 0 of
               (played, None) \<Rightarrow> (Inl NoContentAvailable, room\<lparr>songsPlayed := played\<rparr>)
             | (played, Some s) \<Rightarrow>
                 (Inr (),
                  room\<lparr>roundNumber := roundNumber room + 1,
                       songsPlayed := played @ [song_id s],
                       state := ROUND_LOADING,
                       currentRound :=
                         Some \<lparr>song = s, buzzedPlayerId = None, startTime = now,
                               buzzTime = None,
                               isKaraoke = (roundNumber room + 1 = totalRounds room)\<rparr>\<rparr>)))"

definition nextRound ::
  "(nat \<Rightarrow> rat) \<Rightarrow> int \<Rightarrow> string \<Rightarrow> GameManager
     \<Rightarrow> (error + unit) \<times> GameManager" where
  "nextRound rnd now roomId' = on_room roomId' (nextRound_room rnd now)"

definition startRoundPlaying_room :: "int \<Rightarrow> GameRoom \<Rightarrow> (error + unit) \<times> GameRoom" where
  "startRoundPlaying_room now room =
     (case currentRound room of
        None \<Rightarrow> (Inl InvalidStateTransition, room)
      | Some r \<Rightarrow>
          if state room \<noteq> ROUND_LOADING then (Inl InvalidStateTransition, room)
          else (Inr (), room\<lparr>state := ROUND_PLAYING,
                             currentRound := Some (r\<lparr>startTime := now\<rparr>)\<rparr>))"

definition startRoundPlaying ::
  "int \<Rightarrow> string \<Rightarrow> GameManager \<Rightarrow> (error + unit) \<times> GameManager" where
  "startRoundPlaying now roomId' = on_room roomId' (startRoundPlaying_room now)"

definition handleBuzz_room :: "string \<Rightarrow> int \<Rightarrow> GameRoom \<Rightarrow> (error + bool) \<times> GameRoom" where
  "handleBuzz_room playerId now room =
     (if state room \<noteq> ROUND_PLAYING then (Inr False, room)
      else (case currentRound room of
              None \<Rightarrow> (Inr False, room)
            | Some r \<Rightarrow>
                if buzzedPlayerId r \<noteq> None then (Inr False, room)
                else (Inr True,
                      room\<lparr>currentRound :=
                             Some (r\<lparr>buzzedPlayerId := Some playerId, buzzTime := Some now\<rparr>),
                           state := ROUND_LOCKED\<rparr>)))"

definition handleBuzz ::
  "string \<Rightarrow> string \<Rightarrow> int \<Rightarrow> GameManager \<Rightarrow> (error + bool) \<times> GameManager" where
  "handleBuzz roomId' playerId now = on_room roomId' (handleBuzz_room playerId now)"

definition showRoundResult_room :: "GameRoom \<Rightarrow> (error + unit) \<times> GameRoom" where
  "showRoundResult_room room =
     (if state room \<noteq> ROUND_LOCKED then (Inl InvalidStateTransition, room)
      else (Inr (), room\<lparr>state := ROUND_RESULT\<rparr>))"

definition showRoundResult :: "string \<Rightarrow> GameManager \<Rightarrow> (error + unit) \<times> GameManager" where
  "showRoundResult roomId' = on_room roomId' showRoundResult_room"

definition resetRound_room ::
  "(nat \<Rightarrow> rat) \<Rightarrow> int \<Rightarrow> GameRoom \<Rightarrow> (error + unit) \<times> GameRoom" where
  "resetRound_room rnd now room =
     (if state room = ROUND_LOCKED \<or> state room = ROUND_RESULT
      then nextRound_room rnd now (room\<lparr>currentRound := None\<rparr>)
      else (Inr (), room))"

definition resetRound ::
  "(nat \<Rightarrow> rat) \<Rightarrow> int \<Rightarrow> string \<Rightarrow> GameManager
     \<Rightarrow> (error + unit) \<times> GameManager" where
  "resetRound rnd now roomId' = on_room roomId' (resetRound_room rnd now)"

subsection \<open>Scores\<close>

text \<open>\<open>updateScore\<close> mutates the player object that the room's membership map refers to.\<close>

definition updateScore ::
  "string \<Rightarrow> string \<Rightarrow> number \<Rightarrow> GameManager \<Rightarrow> (error + unit) \<times> GameManager" where
  "updateScore roomId' playerId points m =
     (case rooms m roomId' of
        None \<Rightarrow> (Inl RoomNotFound, m)
      | Some room \<Rightarrow>
          (case map_of (room_players room) playerId of
             None \<Rightarrow> (Inl PlayerNotInRoom, m)
           | Some a \<Rightarrow>
               (Inr (),
                m\<lparr>store := (store m)
                     (a := (store m a)\<lparr>score := Math_max (Fin 0) (js_add (score (store m a)) points)\<rparr>)\<rparr>)))"

definition giveScore ::
  "string \<Rightarrow> string \<Rightarrow> number \<Rightarrow> GameManager \<Rightarrow> (error + unit) \<times> GameManager" where
  "giveScore roomId' playerId scoreAmount m =
     (if js_lt scoreAmount (Fin 0) \<or> js_gt scoreAmount (Fin 10)
      then (Inl InvalidScoreAmount, m)
      else updateScore roomId' playerId scoreAmount m)"

subsection \<open>Queries\<close>

definition getRoom :: "string \<Rightarrow> GameManager \<Rightarrow> GameRoom option" where
  "getRoom roomId' m = rooms m roomId'"

definition getPlayer :: "string \<Rightarrow> GameManager \<Rightarrow> GamePlayer option" where
  "getPlayer socketId' m = map_option (store m) (players m socketId')"

definition getPlayersInRoom :: "string \<Rightarrow> GameManager \<Rightarrow> GamePlayer list" where
  "getPlayersInRoom roomId' m =
     (case rooms m roomId' of
        None \<Rightarrow> []
      | Some room \<Rightarrow> map (\<lambda>p. store m (snd p)) (room_players room))"

definition isHost :: "string \<Rightarrow> string \<Rightarrow> GameManager \<Rightarrow> bool" where
  "isHost roomId' playerId m =
     (case rooms m roomId' of None \<Rightarrow> False | Some room \<Rightarrow> hostId room = playerId)"

section \<open>Sequences of manager operations\<close>

text \<open>
  One constructor for each mutating operation of the class, with the arguments of the
  call and the values the call reads from \<open>Math.random()\<close> and \<open>Date.now()\<close>.
\<close>

datatype op =
    CreateRoom string string "string option" string rat
  | AddPlayer string string string rat
  | RemovePlayer string
  | StartGame string
  | NextRound string "nat \<Rightarrow> rat" int
  | StartRoundPlaying string int
  | HandleBuzz string string int
  | ShowRoundResult string
  | UpdateScore string string number
  | GiveScore string string number
  | ResetRound string "nat \<Rightarrow> rat" int

text \<open>The manager after one call; a call that throws leaves what it had already written.\<close>

fun step :: "op \<Rightarrow> GameManager \<Rightarrow> GameManager" where
  "step (CreateRoom h n c rendered r) m = snd (createRoom h n c rendered r m)"
| "step (AddPlayer s n c r) m = snd (addPlayer s n c r m)"
| "step (RemovePlayer s) m = snd (removePlayer s m)"
| "step (StartGame c) m = snd (startGame c m)"
| "step (NextRound c rnd now) m = snd (nextRound rnd now c m)"
| "step (StartRoundPlaying c now) m = snd (startRoundPlaying now c m)"
| "step (HandleBuzz c p now) m = snd (handleBuzz c p now m)"
| "step (ShowRoundResult c) m = snd (showRoundResult c m)"
| "step (UpdateScore c p d) m = snd (updateScore c p d m)"
| "step (GiveScore c p d) m = snd (giveScore c p d m)"
| "step (ResetRound c rnd now) m = snd (resetRound rnd now c m)"

fun exec :: "op list \<Rightarrow> GameManager \<Rightarrow> GameManager" where
  "exec [] m = m"
| "exec (x # xs) m = exec xs (step x m)"

section \<open>Well-formed managers\<close>

text \<open>
  What every manager reached from \<open>new GameManager()\<close> satisfies: a membership entry
  refers to an allocated player object carrying its key and its room, the host of a room
  is one of its members, the player index points into the membership of the room the
  object names, and the round data of a room are consistent.
\<close>

definition member_ok :: "GameManager \<Rightarrow> string \<Rightarrow> string \<times> ref \<Rightarrow> bool" where
  "member_ok m rid p =
     (snd p < next_ref m \<and> socketId (store m (snd p)) = fst p
      \<and> player_id (store m (snd p)) = fst p \<and> roomId (store m (snd p)) = rid)"

definition room_wf :: "GameManager \<Rightarrow> string \<Rightarrow> GameRoom \<Rightarrow> bool" where
  "room_wf m rid room =
     (room_id room = rid \<and> hostId room \<in> fst ` set (room_players room)
      \<and> distinct (map fst (room_players room))
      \<and> (\<forall>p \<in> set (room_players room). member_ok m rid p))"

definition round_ok :: "GameRoom \<Rightarrow> bool" where
  "round_ok room =
     (totalRounds room = 10
      \<and> (state room = LOBBY \<longrightarrow> roundNumber room = 0 \<and> currentRound room = None)
      \<and> (\<forall>r. currentRound room = Some r \<longrightarrow> isKaraoke r = (roundNumber room = totalRounds room)))"

definition index_ok :: "GameManager \<Rightarrow> bool" where
  "index_ok m =
     (\<forall>sid a. players m sid = Some a \<longrightarrow>
        (\<exists>room. rooms m (roomId (store m a)) = Some room \<and> (sid, a) \<in> set (room_players room)))"

definition manager_ok :: "GameManager \<Rightarrow> bool" where
  "manager_ok m = ((\<forall>rid room. rooms m rid = Some room \<longrightarrow> room_wf m rid room \<and> round_ok room) \<and> index_ok m)"

text \<open>
  Frame condition of an operation on one room: membership, host and identifier are left
  alone and consistent round data stay consistent.
\<close>

definition keeps_members :: "(GameRoom \<Rightarrow> (error + 'a) \<times> GameRoom) \<Rightarrow> bool" where
  "keeps_members f =
     (\<forall>room. room_players (snd (f room)) = room_players room
         \<and> hostId (snd (f room)) = hostId room \<and> room_id (snd (f room)) = room_id room
         \<and> (round_ok room \<longrightarrow> round_ok (snd (f room))))"

text \<open>The room as \<open>nextRound\<close> sees it after its implicit \<open>startGame\<close> in state LOBBY.\<close>

definition started :: "GameRoom \<Rightarrow> GameRoom" where
  "started room =
     (if state room = LOBBY
      then room\<lparr>state := ROUND_LOADING, roundNumber := 0, songsPlayed := []\<rparr> else room)"

section \<open>Buzz winner: auxiliary notions\<close>

text \<open>
  The operations that replace the transient round of room \<open>rid\<close>: \<open>nextRound\<close> and
  \<open>resetRound\<close> on that room.
\<close>

fun replaces_round :: "string \<Rightarrow> op \<Rightarrow> bool" where
  "replaces_round rid (NextRound c rnd now) = (c = rid)"
| "replaces_round rid (ResetRound c rnd now) = (c = rid)"
| "replaces_round rid x = False"

text \<open>
  The round of room \<open>rid\<close>, if the room exists and has one, records winner \<open>w\<close> and
  buzz time \<open>t\<close>.
\<close>

definition winner_kept :: "string \<Rightarrow> string \<Rightarrow> int option \<Rightarrow> GameManager \<Rightarrow> bool" where
  "winner_kept rid w t m =
     (case rooms m rid of
        None \<Rightarrow> True
      | Some room \<Rightarrow>
          (case currentRound room of
             None \<Rightarrow> True
           | Some r \<Rightarrow> buzzedPlayerId r = Some w \<and> buzzTime r = t))"

text \<open>An operation on one room that installs no round and keeps a recorded winner.\<close>

definition keeps_winner :: "(GameRoom \<Rightarrow> (error + 'a) \<times> GameRoom) \<Rightarrow> bool" where
  "keeps_winner f =
     (\<forall>room. case currentRound (snd (f room)) of
               None \<Rightarrow> True
             | Some r' \<Rightarrow> (\<exists>r. currentRound room = Some r \<and>
                   (buzzedPlayerId r \<noteq> None \<longrightarrow>
                      buzzedPlayerId r' = buzzedPlayerId r \<and> buzzTime r' = buzzTime r)))"

section \<open>Example runs\<close>

text \<open>
  A room with two players in its first round, playing phase; the same beside a second
  room; and the first after player \<open>s2\<close> has buzzed.
\<close>

definition playing :: GameManager where
  "playing = exec
     [CreateRoom ''s1'' ''Ana'' (Some ''QUIZ01'') ''0.abcdefgh'' 0,
      AddPlayer ''s2'' ''Leo'' ''QUIZ01'' (1/2),
      NextRound ''QUIZ01'' (\<lambda>k. 0) 1000,
      StartRoundPlaying ''QUIZ01'' 3000] empty_manager"

definition two_rooms :: GameManager where
  "two_rooms = exec
     [CreateRoom ''s1'' ''Ana'' (Some ''QUIZ01'') ''0.abcdefgh'' 0,
      AddPlayer ''s2'' ''Leo'' ''QUIZ01'' (1/2),
      CreateRoom ''s3'' ''Bia'' (Some ''OTHER1'') ''0.abcdefgh'' 0,
      NextRound ''QUIZ01'' (\<lambda>k. 0) 1000,
      StartRoundPlaying ''QUIZ01'' 3000] empty_manager"

definition locked :: GameManager where
  "locked = snd (handleBuzz ''QUIZ01'' ''s2'' 4000 playing)"

text \<open>A room freshly created without a desired code, its host the only member.\<close>

definition solo :: GameManager where
  "solo = exec [CreateRoom ''s1'' ''Ana'' None ''0.4fzyo82mvyr'' (1/4)] empty_manager"

text \<open>Session \<open>s1\<close> hosts one room and then joins another.\<close>

definition double_join :: "op list" where
  "double_join =
     [CreateRoom ''s1'' ''Ana'' (Some ''ROOMA1'') ''0.abcdefgh'' 0,
      CreateRoom ''s2'' ''Leo'' (Some ''ROOMB1'') ''0.abcdefgh'' 0,
      AddPlayer ''s1'' ''Ana'' ''ROOMB1'' 0]"

text \<open>
  Session \<open>s1\<close> hosts one room, joins another and then disconnects, once and a second
  time.
\<close>

definition join_and_leave :: "op list" where
  "join_and_leave = double_join @ [RemovePlayer ''s1'', RemovePlayer ''s1'']"

text \<open>A room of two players after its first round has been set up.\<close>

definition round_one :: GameManager where
  "round_one = exec
     [CreateRoom ''s1'' ''Ana'' (Some ''QUIZ01'') ''0.abcdefgh'' 0,
      AddPlayer ''s2'' ''Leo'' ''QUIZ01'' (1/2),
      NextRound ''QUIZ01'' (\<lambda>k. 0) 1000] empty_manager"

text \<open>
  A whole game: a room of two players and ten calls of \<open>nextRound\<close>. The catalog has four
  songs, so the fifth and the ninth call find every song used.
\<close>

definition ten_rounds :: "op list" where
  "ten_rounds =
     [CreateRoom ''s1'' ''Ana'' (Some ''QUIZ01'') ''0.abcdefgh'' 0,
      AddPlayer ''s2'' ''Leo'' ''QUIZ01'' (1/2),
      NextRound ''QUIZ01'' (\<lambda>k. 0) 1000,
      NextRound ''QUIZ01'' (\<lambda>k. 1/4) 2000,
      NextRound ''QUIZ01'' (\<lambda>k. 1/2) 3000,
      NextRound ''QUIZ01'' (\<lambda>k. 3/4) 4000,
      NextRound ''QUIZ01'' (\<lambda>k. 0) 5000,
      NextRound ''QUIZ01'' (\<lambda>k. 1/4) 6000,
      NextRound ''QUIZ01'' (\<lambda>k. 1/2) 7000,
      NextRound ''QUIZ01'' (\<lambda>k. 3/4) 8000,
      NextRound ''QUIZ01'' (\<lambda>k. 0) 9000,
      NextRound ''QUIZ01'' (\<lambda>k. 1/4) 10000]"

text \<open>That game with its tenth round played and locked by a buzz of \<open>s2\<close>.\<close>

definition last_round_locked :: GameManager where
  "last_round_locked = exec
     (ten_rounds @ [StartRoundPlaying ''QUIZ01'' 12000, HandleBuzz ''QUIZ01'' ''s2'' 12500])
     empty_manager"

section \<open>Lemmas on rounding\<close>

lemma expUp_spec:
  "2 powi e0 \<le> a \<Longrightarrow> e0 \<le> 1023 \<Longrightarrow>
   e0 \<le> expUp a e0 \<and> expUp a e0 \<le> 1023 \<and> 2 powi (expUp a e0) \<le> a
   \<and> (a < 2 powi (expUp a e0 + 1) \<or> expUp a e0 = 1023)"
proof (induction a e0 rule: expUp.induct)
  case (1 a e)
  show ?case
  proof (cases "a < 2 powi (e + 1) \<or> 1023 \<le> e")
    case True
    then show ?thesis using "1.prems" by (auto simp: expUp.simps [of a e])
  next
    case False
    then have "2 powi (e + 1) \<le> a" "e + 1 \<le> 1023" by auto
    from "1.IH" [OF False this] show ?thesis
      using False by (simp add: expUp.simps [of a e])
  qed
qed

lemma expDown_spec:
  "a < 2 powi (e0 + 1) \<Longrightarrow> - 1022 \<le> e0 \<Longrightarrow>
   expDown a e0 \<le> e0 \<and> - 1022 \<le> expDown a e0 \<and> a < 2 powi (expDown a e0 + 1)
   \<and> (2 powi (expDown a e0) \<le> a \<or> expDown a e0 = - 1022)"
proof (induction a e0 rule: expDown.induct)
  case (1 a e)
  show ?case
  proof (cases "2 powi e \<le> a \<or> e \<le> - 1022")
    case True
    then show ?thesis using "1.prems" by (auto simp: expDown.simps [of a e])
  next
    case False
    then have "a < 2 powi (e - 1 + 1)" "- 1022 \<le> e - 1" by auto
    from "1.IH" [OF False this] show ?thesis
      using False by (simp add: expDown.simps [of a e])
  qed
qed

lemma exponent_spec:
  "- 1022 \<le> exponent a \<and> exponent a \<le> 1023
   \<and> (a < 2 powi (exponent a + 1) \<or> exponent a = 1023)
   \<and> (2 powi (exponent a) \<le> a \<or> exponent a = - 1022)"
proof (cases "1 \<le> a")
  case True
  then have "(2::rat) powi 0 \<le> a" by simp
  from expUp_spec [OF this] show ?thesis using True by (simp add: exponent_def)
next
  case False
  then have "a < 2 powi (- 1 + 1)" by simp
  from expDown_spec [OF this] show ?thesis using False by (simp add: exponent_def)
qed

lemma ulp_pos: "0 < ulp a"
  by (simp add: ulp_def)

lemma roundHalfEven_of_int [simp]: "roundHalfEven (of_int n) = n"
  by (simp add: roundHalfEven_def)

lemma roundHalfEven_nonneg: "0 \<le> q \<Longrightarrow> 0 \<le> roundHalfEven q"
  by (auto simp: roundHalfEven_def)


text \<open>A multiple of a power of two with a 53-bit factor, not below the subnormal grid, is a double.\<close>

lemma fl_exact:
  assumes x: "x = of_int n * 2 powi k" and n: "\<bar>n\<bar> < 2 ^ 53" and k: "- 1074 \<le> k"
  shows "fl x = x"
proof (cases "x = 0")
  case True
  then show ?thesis by (simp add: fl_def)
next
  case False
  define a where "a = \<bar>x\<bar>"
  define e where "e = exponent a"
  have a: "a = of_int \<bar>n\<bar> * 2 powi k" by (simp add: a_def x abs_mult)
  have "a < 2 ^ 53 * 2 powi k"
  proof -
    have "rat_of_int \<bar>n\<bar> < 2 ^ 53" using n by (metis of_int_less_numeral_power_cancel_iff)
    then show ?thesis unfolding a by (simp add: mult_strict_right_mono)
  qed
  then have lt: "a < 2 powi (53 + k)"
    by (simp add: power_int_add)
  have el: "e \<le> k + 52"
  proof (cases "e = - 1022")
    case True
    then show ?thesis using k by simp
  next
    case False
    then have "2 powi e \<le> a" using exponent_spec [of a] by (simp add: e_def)
    then have "(2::rat) powi e < 2 powi (53 + k)" using lt by simp
    have "e < 53 + k"
    proof (rule ccontr)
      assume "\<not> e < 53 + k"
      then have "(2::rat) powi (53 + k) \<le> 2 powi e"
        by (intro power_int_increasing) auto
      with \<open>(2::rat) powi e < 2 powi (53 + k)\<close> show False by simp
    qed
    then show ?thesis by simp
  qed
  define j where "j = nat (k + 52 - e)"
  have j: "int j = k + 52 - e" using el by (simp add: j_def)
  have u: "ulp a = 2 powi (e - 52)" by (simp add: ulp_def e_def)
  have "a / ulp a = a / 2 powi (e - 52)" by (simp only: u)
  also have "\<dots> = of_int \<bar>n\<bar> * (2 powi k / 2 powi (e - 52))"
    by (simp add: a)
  also have "2 powi k / 2 powi (e - 52) = (2::rat) powi (k - (e - 52))"
    by (subst power_int_diff) simp_all
  also have "k - (e - 52) = int j" using j by linarith
  also have "(2::rat) powi (int j) = of_int (2 ^ j)" by (simp only: power_int_of_nat of_int_power of_int_numeral)
  finally have q: "a / ulp a = of_int (\<bar>n\<bar> * 2 ^ j)" by simp
  have "of_int (roundHalfEven (a / ulp a)) * ulp a = a"
    unfolding q roundHalfEven_of_int using q ulp_pos [of a]
    by (metis nonzero_divide_eq_eq less_irrefl)
  then show ?thesis
    using False by (simp add: fl_def a_def [symmetric] mult.assoc) (simp add: a_def sgn_if)
qed

lemma fl_of_int: "\<bar>n\<bar> < 2 ^ 53 \<Longrightarrow> fl (of_int n) = of_int n"
  using fl_exact [of "of_int n" n 0] by simp

lemma fl_small [simp]:
  "fl 0 = 0" "fl 1 = 1" "fl 2 = 2" "fl 3 = 3" "fl 4 = 4" "fl 5 = 5" "fl 8 = 8"
  "fl (- 2) = - 2"
  using fl_of_int [of 0] fl_of_int [of 1] fl_of_int [of 2] fl_of_int [of 3] fl_of_int [of 4]
    fl_of_int [of 5] fl_of_int [of 8] fl_of_int [of "- 2"]
  by simp_all

lemma fl_fractions:
  "fl (1 / 4) = 1 / 4" "fl (1 / 2) = 1 / 2" "fl (3 / 4) = 3 / 4"
  using fl_exact [of "1 / 4" 1 "- 2"] fl_exact [of "1 / 2" 1 "- 1"] fl_exact [of "3 / 4" 3 "- 2"]
  by (simp_all add: power_int_minus)

text \<open>
  A double in [0, 1) is a 53-bit multiple of its spacing, so its product with a power of
  two is a double again: the multiplication in \<open>getRandomSong\<close> is exact.
\<close>

lemma fl_scale:
  assumes d: "fl x = x" and x: "0 \<le> x" "x < 1"
  shows "fl (x * 2 ^ j) = x * 2 ^ j"
proof (cases "x = 0")
  case True
  then show ?thesis by simp
next
  case False
  then have pos: "0 < x" using x by simp
  define e where "e = exponent x"
  define n where "n = roundHalfEven (x / ulp x)"
  have u: "ulp x = 2 powi (e - 52)" by (simp add: ulp_def e_def)
  have xe: "x = of_int n * 2 powi (e - 52)"
    using d pos by (simp add: fl_def n_def u sgn_if)
  have e: "- 1022 \<le> e" "x < 2 powi (e + 1) \<or> e = 1023" "2 powi e \<le> x \<or> e = - 1022"
    using exponent_spec [of x] by (simp_all add: e_def)
  have e0: "e < 0"
  proof (cases "e = - 1022")
    case True
    then show ?thesis by simp
  next
    case False
    then have "(2::rat) powi e < 2 powi 0" using e(3) x(2) by simp
    show ?thesis
    proof (rule ccontr)
      assume "\<not> e < 0"
      then have "(2::rat) powi 0 \<le> 2 powi e" by (intro power_int_increasing) auto
      with \<open>(2::rat) powi e < 2 powi 0\<close> show False by simp
    qed
  qed
  then have lt: "x < 2 powi (e + 1)" using e(2) by auto
  have n0: "0 \<le> n"
    unfolding n_def using pos ulp_pos [of x] by (intro roundHalfEven_nonneg) simp
  have "of_int n * 2 powi (e - 52) < (2::rat) powi (e + 1)" using lt xe by simp
  also have "(2::rat) powi (e + 1) = 2 powi 53 * 2 powi (e - 52)"
    using power_int_add [of "2::rat" 53 "e - 52"] by (simp add: add.commute)
  finally have "rat_of_int n < 2 powi 53"
    by (simp add: mult_less_cancel_right)
  then have "rat_of_int n < of_int (2 ^ 53)" by simp
  then have n53: "n < 2 ^ 53" by (simp only: of_int_less_iff)
  have "x * 2 ^ j = of_int n * (2 powi (e - 52) * 2 powi (int j))"
    using xe by (simp add: mult.assoc)
  also have "2 powi (e - 52) * 2 powi (int j) = (2::rat) powi (e - 52 + int j)"
    by (simp add: power_int_add)
  finally have form: "x * 2 ^ j = of_int n * 2 powi (e - 52 + int j)" .
  show ?thesis
    using fl_exact [OF form] n0 n53 e(1) by simp
qed

lemma length_SONGS: "length SONGS = 4"
  by (simp add: SONGS_def)

lemma getRandomSong_in_range:
  assumes "fl r = r" "0 \<le> r" "r < 1"
  shows "\<exists>s. getRandomSong r = Some s"
proof -
  have "fl (r * 2 ^ 2) = r * 2 ^ 2" using assms by (rule fl_scale)
  then have p: "fl (r * 4) = r * 4" by simp
  have "0 \<le> \<lfloor>r * 4\<rfloor>" using assms(2) by simp
  moreover have "\<lfloor>r * 4\<rfloor> < 4" using assms(3) by (simp add: floor_less_iff)
  ultimately show ?thesis by (simp add: getRandomSong_def length_SONGS p)
qed

lemma getRandomSong_eval:
  "getRandomSong 0 = Some (SONGS ! 0)" "getRandomSong (1 / 4) = Some (SONGS ! 1)"
  "getRandomSong (1 / 2) = Some (SONGS ! 2)" "getRandomSong (3 / 4) = Some (SONGS ! 3)"
  by (simp_all add: getRandomSong_def length_SONGS)

lemma generateAvatar_eval:
  "generateAvatar 0 = 0" "generateAvatar (1 / 4) = 4" "generateAvatar (1 / 2) = 8"
  by (simp_all add: generateAvatar_def)

text \<open>The sum of the doubles nearest to 0.1 and 0.2 is rounded, to the tie's even side.\<close>

lemma fl_rounds:
  "fl (3602879701896397 / 2 ^ 55 + 3602879701896397 / 2 ^ 54) = 5404319552844596 / 2 ^ 54"
  by code_simp



section \<open>Invariant proofs\<close>

lemma manager_ok_empty: "manager_ok empty_manager"
  by (simp add: manager_ok_def index_ok_def empty_manager_def)

lemma js_set_fresh: "map_of xs k = None \<Longrightarrow> js_set k v xs = xs @ [(k, v)]"
  by (induction xs) (auto split: if_splits)

lemma js_delete_set: "set (js_delete k xs) = {p \<in> set xs. fst p \<noteq> k}"
  by (auto simp: js_delete_def)

lemma js_delete_distinct: "distinct (map fst xs) \<Longrightarrow> distinct (map fst (js_delete k xs))"
  by (simp add: js_delete_def distinct_map_filter)

lemma on_room_ok:
  assumes "manager_ok m" and "keeps_members f"
  shows "manager_ok (snd (on_room rid f m))"
proof (cases "rooms m rid")
  case None
  then show ?thesis using assms by (simp add: on_room_def)
next
  case (Some room)
  obtain res room' where f: "f room = (res, room')" by (cases "f room")
  have k: "room_players room' = room_players room" "hostId room' = hostId room"
    "room_id room' = room_id room" "round_ok room \<Longrightarrow> round_ok room'"
    using assms(2) f unfolding keeps_members_def by (metis snd_conv)+
  have m': "snd (on_room rid f m) = m\<lparr>rooms := (rooms m)(rid \<mapsto> room')\<rparr>"
    using Some f by (simp add: on_room_def)
  show ?thesis
    unfolding m' manager_ok_def
  proof (intro conjI allI impI)
    fix rid' r
    assume a: "rooms (m\<lparr>rooms := (rooms m)(rid \<mapsto> room')\<rparr>) rid' = Some r"
    show "room_wf (m\<lparr>rooms := (rooms m)(rid \<mapsto> room')\<rparr>) rid' r"
      using a assms(1) Some k unfolding manager_ok_def room_wf_def member_ok_def
      by (cases "rid' = rid") auto
    show "round_ok r"
      using a assms(1) Some k unfolding manager_ok_def by (cases "rid' = rid") auto
  next
    show "index_ok (m\<lparr>rooms := (rooms m)(rid \<mapsto> room')\<rparr>)"
      unfolding index_ok_def
    proof (intro allI impI)
      fix sid a
      assume "players (m\<lparr>rooms := (rooms m)(rid \<mapsto> room')\<rparr>) sid = Some a"
      then have "players m sid = Some a" by simp
      then obtain r where r: "rooms m (roomId (store m a)) = Some r" "(sid, a) \<in> set (room_players r)"
        using assms(1) unfolding manager_ok_def index_ok_def by blast
      show "\<exists>room. rooms (m\<lparr>rooms := (rooms m)(rid \<mapsto> room')\<rparr>)
                (roomId (store (m\<lparr>rooms := (rooms m)(rid \<mapsto> room')\<rparr>) a)) = Some room
              \<and> (sid, a) \<in> set (room_players room)"
        using r Some k(1) by (cases "roomId (store m a) = rid") auto
    qed
  qed
qed

lemma keeps_startGame: "keeps_members startGame_room"
  by (auto simp: keeps_members_def startGame_room_def round_ok_def)

lemma nextRound_room_cases:
  obtains
    (insufficient) "state room0 = LOBBY" "length (room_players room0) < 2"
      "nextRound_room rnd now room0 = (Inl InsufficientPlayers, room0)"
  | (over) "totalRounds (started room0) \<le> roundNumber (started room0)"
      "nextRound_room rnd now room0 =
         (Inr (), (started room0)\<lparr>state := GAME_OVER, currentRound := None\<rparr>)"
  | (nocontent) played where
      "\<not> totalRounds (started room0) \<le> roundNumber (started room0)"
      "selectSong rnd (songsPlayed (started room0)) 0 = (played, None)"
      "nextRound_room rnd now room0 =
         (Inl NoContentAvailable, (started room0)\<lparr>songsPlayed := played\<rparr>)"
  | (installed) played s where
      "\<not> totalRounds (started room0) \<le> roundNumber (started room0)"
      "selectSong rnd (songsPlayed (started room0)) 0 = (played, Some s)"
      "nextRound_room rnd now room0 =
         (Inr (),
          (started room0)\<lparr>roundNumber := roundNumber (started room0) + 1,
             songsPlayed := played @ [song_id s], state := ROUND_LOADING,
             currentRound :=
               Some \<lparr>song = s, buzzedPlayerId = None, startTime = now, buzzTime = None,
                     isKaraoke = (roundNumber (started room0) + 1 = totalRounds (started room0))\<rparr>\<rparr>)"
proof -
  obtain played sg where sel: "selectSong rnd (songsPlayed (started room0)) 0 = (played, sg)"
    by (cases "selectSong rnd (songsPlayed (started room0)) 0")
  show thesis
  proof (cases "state room0 = LOBBY \<and> length (room_players room0) < 2")
    case True
    then show thesis
      using insufficient by (simp add: nextRound_room_def startGame_room_def)
  next
    case False
    then have st: "(if state room0 = LOBBY then startGame_room room0 else (Inr (), room0))
                    = (Inr (), started room0)"
      by (auto simp: startGame_room_def started_def)
    show thesis
    proof (cases "totalRounds (started room0) \<le> roundNumber (started room0)")
      case True
      then show thesis using over st by (simp add: nextRound_room_def)
    next
      case ng: False
      show thesis
      proof (cases sg)
        case None
        then show thesis using nocontent [of played] ng st sel by (simp add: nextRound_room_def)
      next
        case (Some s)
        then show thesis using installed [of played s] ng st sel by (simp add: nextRound_room_def)
      qed
    qed
  qed
qed

lemma started_frame:
  "room_players (started room) = room_players room" "hostId (started room) = hostId room"
  "room_id (started room) = room_id room" "totalRounds (started room) = totalRounds room"
  "currentRound (started room) = currentRound room"
  by (simp_all add: started_def)

lemma started_round_ok: "round_ok room \<Longrightarrow> round_ok (started room)"
  by (simp add: started_def round_ok_def)

lemma round_ok_over: "round_ok r \<Longrightarrow> round_ok (r\<lparr>state := GAME_OVER, currentRound := None\<rparr>)"
  by (simp add: round_ok_def)

lemma round_ok_played: "round_ok r \<Longrightarrow> round_ok (r\<lparr>songsPlayed := p\<rparr>)"
  by (simp add: round_ok_def)

lemma round_ok_installed:
  "round_ok r \<Longrightarrow>
   round_ok (r\<lparr>roundNumber := roundNumber r + 1, songsPlayed := p, state := ROUND_LOADING,
               currentRound :=
                 Some \<lparr>song = s, buzzedPlayerId = None, startTime = now, buzzTime = None,
                       isKaraoke = (roundNumber r + 1 = totalRounds r)\<rparr>\<rparr>)"
  by (simp add: round_ok_def)

lemma keeps_nextRound: "keeps_members (nextRound_room rnd now)"
  unfolding keeps_members_def
proof (intro allI)
  fix room
  show "room_players (snd (nextRound_room rnd now room)) = room_players room \<and>
        hostId (snd (nextRound_room rnd now room)) = hostId room \<and>
        room_id (snd (nextRound_room rnd now room)) = room_id room \<and>
        (round_ok room \<longrightarrow> round_ok (snd (nextRound_room rnd now room)))"
  proof (cases rule: nextRound_room_cases [of room rnd now])
    case insufficient
    then show ?thesis by simp
  next
    case over
    show ?thesis unfolding over(2)
      by (simp add: started_frame(1,2,3) round_ok_over started_round_ok)
  next
    case (nocontent played)
    show ?thesis unfolding nocontent(3)
      by (simp add: started_frame(1,2,3) round_ok_played started_round_ok)
  next
    case (installed played s)
    show ?thesis unfolding installed(3)
      by (simp add: started_frame(1,2,3) round_ok_installed started_round_ok)
  qed
qed

lemma keeps_startRoundPlaying: "keeps_members (startRoundPlaying_room now)"
  by (auto simp: keeps_members_def startRoundPlaying_room_def round_ok_def split: option.splits)

lemma keeps_handleBuzz: "keeps_members (handleBuzz_room p now)"
  by (auto simp: keeps_members_def handleBuzz_room_def round_ok_def split: option.splits)

lemma keeps_showRoundResult: "keeps_members showRoundResult_room"
  by (auto simp: keeps_members_def showRoundResult_room_def round_ok_def)

lemma keeps_resetRound: "keeps_members (resetRound_room rnd now)"
  unfolding keeps_members_def
proof (intro allI)
  fix room
  have c: "round_ok room \<Longrightarrow> round_ok (room\<lparr>currentRound := None\<rparr>)"
    by (simp add: round_ok_def)
  show "room_players (snd (resetRound_room rnd now room)) = room_players room \<and>
        hostId (snd (resetRound_room rnd now room)) = hostId room \<and>
        room_id (snd (resetRound_room rnd now room)) = room_id room \<and>
        (round_ok room \<longrightarrow> round_ok (snd (resetRound_room rnd now room)))"
    using keeps_nextRound [of rnd now, unfolded keeps_members_def,
        THEN spec, of "room\<lparr>currentRound := None\<rparr>"] c
    by (simp add: resetRound_room_def)
qed

lemma member_ok_alloc:
  "member_ok m rid p \<Longrightarrow>
   member_ok (m\<lparr>rooms := rs, players := ps, store := (store m)(next_ref m := x),
               next_ref := Suc (next_ref m)\<rparr>) rid p"
  by (auto simp: member_ok_def)

lemma room_wf_alloc:
  "room_wf m rid room \<Longrightarrow>
   room_wf (m\<lparr>rooms := rs, players := ps, store := (store m)(next_ref m := x),
             next_ref := Suc (next_ref m)\<rparr>) rid room"
  unfolding room_wf_def using member_ok_alloc by blast

lemma index_target:
  assumes "manager_ok m" "players m sid = Some a"
  obtains room where "rooms m (roomId (store m a)) = Some room"
    "(sid, a) \<in> set (room_players room)" "a < next_ref m" "player_id (store m a) = sid"
    "socketId (store m a) = sid" "room_id room = roomId (store m a)"
proof -
  obtain room where r: "rooms m (roomId (store m a)) = Some room"
    "(sid, a) \<in> set (room_players room)"
    using assms unfolding manager_ok_def index_ok_def by blast
  have "room_wf m (roomId (store m a)) room"
    using assms(1) r(1) unfolding manager_ok_def by blast
  then have "member_ok m (roomId (store m a)) (sid, a)" "room_id room = roomId (store m a)"
    using r(2) unfolding room_wf_def by blast+
  then show thesis using that r by (simp add: member_ok_def)
qed

lemma createRoom_ok:
  assumes "manager_ok m"
  shows "manager_ok (snd (createRoom h n c rendered r m))"
proof -
  define code where "code = (case c of None \<Rightarrow> generateRoomId rendered
                              | Some c' \<Rightarrow> if c' = [] then generateRoomId rendered else c')"
  show ?thesis
  proof (cases "rooms m code")
    case (Some x)
    then show ?thesis using assms by (simp add: createRoom_def code_def Let_def)
  next
    case None
    define host where "host = \<lparr>player_id = h, socketId = h, name = n, score = Fin 0,
                       avatar = generateAvatar r, roomId = code\<rparr>"
    define room where "room = \<lparr>room_id = code, hostId = h, state = LOBBY,
                       room_players = [(h, next_ref m)], currentRound = None,
                       roundNumber = 0, totalRounds = 10, songsPlayed = []\<rparr>"
    define m' where "m' = m\<lparr>rooms := (rooms m)(code \<mapsto> room),
                 players := (players m)(h \<mapsto> next_ref m),
                 store := (store m)(next_ref m := host),
                 next_ref := Suc (next_ref m)\<rparr>"
    have res: "snd (createRoom h n c rendered r m) = m'"
      using None by (simp add: createRoom_def code_def [symmetric] Let_def m'_def room_def host_def)
    have new: "room_wf m' code room" "round_ok room"
      by (simp_all add: room_wf_def member_ok_def m'_def room_def host_def round_ok_def)
    have old: "room_wf m' rid x \<and> round_ok x" if "rooms m rid = Some x" for rid x
      using assms that room_wf_alloc unfolding manager_ok_def m'_def by blast
    have idx: "index_ok m'"
      unfolding index_ok_def
    proof (intro allI impI)
      fix sid a
      assume p: "players m' sid = Some a"
      show "\<exists>room. rooms m' (roomId (store m' a)) = Some room \<and> (sid, a) \<in> set (room_players room)"
      proof (cases "sid = h")
        case True
        then show ?thesis using p by (simp add: m'_def room_def host_def)
      next
        case False
        then have pm: "players m sid = Some a" using p by (simp add: m'_def)
        from index_target [OF assms pm] obtain x where
          x: "rooms m (roomId (store m a)) = Some x" "(sid, a) \<in> set (room_players x)"
             "a < next_ref m" by blast
        then have "roomId (store m a) \<noteq> code" using None by auto
        then show ?thesis using x by (simp add: m'_def)
      qed
    qed
    show ?thesis
      unfolding res manager_ok_def
    proof (intro conjI allI impI idx)
      fix rid x assume a: "rooms m' rid = Some x"
      show "room_wf m' rid x" using a new old by (cases "rid = code") (auto simp: m'_def)
      show "round_ok x" using a new old by (cases "rid = code") (auto simp: m'_def)
    qed
  qed
qed

lemma addPlayer_ok:
  assumes "manager_ok m"
  shows "manager_ok (snd (addPlayer s n c r m))"
proof (cases "rooms m c")
  case None
  then show ?thesis using assms by (simp add: addPlayer_def)
next
  case (Some room)
  show ?thesis
  proof (cases "map_of (room_players room) s")
    case (Some a)
    then show ?thesis using assms \<open>rooms m c = Some room\<close> by (simp add: addPlayer_def)
  next
    case None
    define player where "player = \<lparr>player_id = s, socketId = s, name = n, score = Fin 0,
                       avatar = generateAvatar r, roomId = c\<rparr>"
    define room' where "room' = room\<lparr>room_players := room_players room @ [(s, next_ref m)]\<rparr>"
    define m' where "m' = m\<lparr>rooms := (rooms m)(c \<mapsto> room'),
                 players := (players m)(s \<mapsto> next_ref m),
                 store := (store m)(next_ref m := player),
                 next_ref := Suc (next_ref m)\<rparr>"
    have res: "snd (addPlayer s n c r m) = m'"
      using None \<open>rooms m c = Some room\<close>
      by (simp add: addPlayer_def Let_def m'_def room'_def player_def js_set_fresh)
    have fresh: "s \<notin> fst ` set (room_players room)"
      using None by (simp add: map_of_eq_None_iff)
    have old: "room_wf m' rid x \<and> round_ok x" if "rooms m rid = Some x" for rid x
      using assms that room_wf_alloc unfolding manager_ok_def m'_def by blast
    have rw: "room_wf m' c room" and ro: "round_ok room"
      using old [OF \<open>rooms m c = Some room\<close>] by simp_all
    have new: "room_wf m' c room'"
      using rw fresh
      by (auto simp: room_wf_def room'_def member_ok_def m'_def player_def)
    have ro': "round_ok room'" using ro by (simp add: round_ok_def room'_def)
    have idx: "index_ok m'"
      unfolding index_ok_def
    proof (intro allI impI)
      fix sid a
      assume p: "players m' sid = Some a"
      show "\<exists>room. rooms m' (roomId (store m' a)) = Some room \<and> (sid, a) \<in> set (room_players room)"
      proof (cases "sid = s")
        case True
        then show ?thesis using p by (simp add: m'_def room'_def player_def)
      next
        case False
        then have pm: "players m sid = Some a" using p by (simp add: m'_def)
        from index_target [OF assms pm] obtain x where
          x: "rooms m (roomId (store m a)) = Some x" "(sid, a) \<in> set (room_players x)"
             "a < next_ref m" by blast
        show ?thesis
          using x \<open>rooms m c = Some room\<close>
          by (cases "roomId (store m a) = c") (auto simp: m'_def room'_def)
      qed
    qed
    show ?thesis
      unfolding res manager_ok_def
    proof (intro conjI allI impI idx)
      fix rid x assume a: "rooms m' rid = Some x"
      show "room_wf m' rid x" using a new old by (cases "rid = c") (auto simp: m'_def)
      show "round_ok x" using a ro' old by (cases "rid = c") (auto simp: m'_def)
    qed
  qed
qed

lemma updateScore_ok:
  assumes "manager_ok m"
  shows "manager_ok (snd (updateScore c p d m))"
proof (cases "rooms m c")
  case None
  then show ?thesis using assms by (simp add: updateScore_def)
next
  case (Some room)
  show ?thesis
  proof (cases "map_of (room_players room) p")
    case None
    then show ?thesis using assms Some by (simp add: updateScore_def)
  next
    case (Some a)
    define m' where "m' = m\<lparr>store := (store m)
                     (a := (store m a)\<lparr>score := Math_max (Fin 0) (js_add (score (store m a)) d)\<rparr>)\<rparr>"
    have res: "snd (updateScore c p d m) = m'"
      using Some \<open>rooms m c = Some room\<close> by (simp add: updateScore_def m'_def)
    have st: "socketId (store m' b) = socketId (store m b)"
      "player_id (store m' b) = player_id (store m b)"
      "roomId (store m' b) = roomId (store m b)" for b
      by (simp_all add: m'_def)
    have mo: "member_ok m' rid q = member_ok m rid q" for rid q
      by (simp add: member_ok_def st) (simp add: m'_def)
    have rw: "room_wf m' rid x = room_wf m rid x" for rid x
      by (simp add: room_wf_def mo)
    have "index_ok m'"
      using assms unfolding manager_ok_def index_ok_def st by (simp add: m'_def)
    moreover have "rooms m' = rooms m" by (simp add: m'_def)
    ultimately show ?thesis
      using assms unfolding res manager_ok_def rw by simp
  qed
qed

lemma giveScore_ok: "manager_ok m \<Longrightarrow> manager_ok (snd (giveScore c p d m))"
  by (simp add: giveScore_def updateScore_ok)

lemma removePlayer_unknown:
  "players m s = None \<Longrightarrow> removePlayer s m = ((None, None), m)"
  by (simp add: removePlayer_def)

lemma removePlayer_cases [consumes 2, case_names guest transfer last]:
  assumes ok: "manager_ok m" and p: "players m s = Some a"
  obtains
    (guest) room where
      "rooms m (roomId (store m a)) = Some room" "hostId room \<noteq> s"
      "removePlayer s m =
         ((Some (room\<lparr>room_players := js_delete s (room_players room)\<rparr>), Some a),
          m\<lparr>rooms := (rooms m)(roomId (store m a) \<mapsto>
                         room\<lparr>room_players := js_delete s (room_players room)\<rparr>),
            players := (players m)(s := None)\<rparr>)"
  | (transfer) room k b rest where
      "rooms m (roomId (store m a)) = Some room" "hostId room = s"
      "js_delete s (room_players room) = (k, b) # rest"
      "removePlayer s m =
         ((Some (room\<lparr>room_players := js_delete s (room_players room), hostId := k\<rparr>), Some a),
          m\<lparr>rooms := (rooms m)(roomId (store m a) \<mapsto>
                         room\<lparr>room_players := js_delete s (room_players room), hostId := k\<rparr>),
            players := (players m)(s := None)\<rparr>)"
  | (last) room where
      "rooms m (roomId (store m a)) = Some room" "hostId room = s"
      "js_delete s (room_players room) = []"
      "removePlayer s m =
         ((None, Some a),
          m\<lparr>rooms := (rooms m)(roomId (store m a) := None),
            players := (players m)(s := None)\<rparr>)"
proof -
  from index_target [OF ok p] obtain room where
    r: "rooms m (roomId (store m a)) = Some room" "(s, a) \<in> set (room_players room)"
       "player_id (store m a) = s" "room_id room = roomId (store m a)" by blast
  have rw: "room_wf m (roomId (store m a)) room"
    using ok r(1) unfolding manager_ok_def by blast
  show thesis
  proof (cases "hostId room = s")
    case False
    then show thesis
      using guest [of room] r p by (simp add: removePlayer_def Let_def)
  next
    case True
    show thesis
    proof (cases "js_delete s (room_players room)")
      case Nil
      then show thesis
        using last [of room] r p True by (simp add: removePlayer_def Let_def)
    next
      case (Cons q rest)
      obtain k b where q: "q = (k, b)" by (cases q)
      have "(k, b) \<in> set (room_players room)"
        using Cons q js_delete_set [of s "room_players room"] by auto
      then have "socketId (store m b) = k"
        using rw unfolding room_wf_def member_ok_def by fastforce
      then show thesis
        using transfer [of room k b rest] r p True Cons q
        by (simp add: removePlayer_def Let_def)
    qed
  qed
qed

lemma shrink_ok:
  assumes ok: "manager_ok m" and r: "rooms m rid = Some room"
    and h: "h \<in> fst ` set (js_delete s (room_players room))"
  shows "manager_ok (m\<lparr>rooms := (rooms m)(rid \<mapsto>
                         room\<lparr>room_players := js_delete s (room_players room), hostId := h\<rparr>),
                      players := (players m)(s := None)\<rparr>)"
    (is "manager_ok ?m'")
proof -
  let ?room' = "room\<lparr>room_players := js_delete s (room_players room), hostId := h\<rparr>"
  have rw: "room_wf m rid room" and ro: "round_ok room"
    using ok r unfolding manager_ok_def by blast+
  have mo: "member_ok ?m' c q = member_ok m c q" for c q
    by (simp add: member_ok_def)
  have new: "room_wf ?m' rid ?room'"
    using rw h unfolding room_wf_def mo
    by (simp add: js_delete_distinct js_delete_set)
  have ro': "round_ok ?room'" using ro by (simp add: round_ok_def)
  have old: "room_wf ?m' c x \<and> round_ok x" if "rooms m c = Some x" for c x
    using ok that unfolding manager_ok_def room_wf_def mo by blast
  have idx: "index_ok ?m'"
    unfolding index_ok_def
  proof (intro allI impI)
    fix sid a
    assume p: "players ?m' sid = Some a"
    then have ne: "sid \<noteq> s" and pm: "players m sid = Some a"
      by (auto split: if_splits)
    from index_target [OF ok pm] obtain x where
      x: "rooms m (roomId (store m a)) = Some x" "(sid, a) \<in> set (room_players x)" by blast
    show "\<exists>room. rooms ?m' (roomId (store ?m' a)) = Some room \<and> (sid, a) \<in> set (room_players room)"
      using x r ne by (cases "roomId (store m a) = rid") (auto simp: js_delete_set)
  qed
  show ?thesis
    unfolding manager_ok_def
  proof (intro conjI allI impI idx)
    fix c x assume a: "rooms ?m' c = Some x"
    show "room_wf ?m' c x" using a new old by (cases "c = rid") auto
    show "round_ok x" using a ro' old by (cases "c = rid") auto
  qed
qed

lemma drop_room_ok:
  assumes ok: "manager_ok m" and r: "rooms m rid = Some room"
    and e: "js_delete s (room_players room) = []"
  shows "manager_ok (m\<lparr>rooms := (rooms m)(rid := None), players := (players m)(s := None)\<rparr>)"
    (is "manager_ok ?m'")
proof -
  have mo: "member_ok ?m' c q = member_ok m c q" for c q
    by (simp add: member_ok_def)
  have old: "room_wf ?m' c x \<and> round_ok x" if "rooms m c = Some x" for c x
    using ok that unfolding manager_ok_def room_wf_def mo by blast
  have only: "fst q = s" if "q \<in> set (room_players room)" for q
    using e that by (auto simp: js_delete_def filter_empty_conv)
  have idx: "index_ok ?m'"
    unfolding index_ok_def
  proof (intro allI impI)
    fix sid a
    assume p: "players ?m' sid = Some a"
    then have ne: "sid \<noteq> s" and pm: "players m sid = Some a"
      by (auto split: if_splits)
    from index_target [OF ok pm] obtain x where
      x: "rooms m (roomId (store m a)) = Some x" "(sid, a) \<in> set (room_players x)" by blast
    have "roomId (store m a) \<noteq> rid"
      using x r ne only [of "(sid, a)"] by auto
    then show "\<exists>room. rooms ?m' (roomId (store ?m' a)) = Some room \<and> (sid, a) \<in> set (room_players room)"
      using x by simp
  qed
  show ?thesis
    unfolding manager_ok_def
  proof (intro conjI allI impI idx)
    fix c x assume a: "rooms ?m' c = Some x"
    then have "rooms m c = Some x" by (auto split: if_splits)
    then show "room_wf ?m' c x" "round_ok x" using old by blast+
  qed
qed

lemma removePlayer_ok:
  assumes ok: "manager_ok m"
  shows "manager_ok (snd (removePlayer s m))"
proof (cases "players m s")
  case None
  then show ?thesis using ok by (simp add: removePlayer_unknown)
next
  case (Some a)
  from ok Some show ?thesis
  proof (cases rule: removePlayer_cases)
    case (guest room)
    have "hostId room \<in> fst ` set (room_players room)"
      using ok guest(1) unfolding manager_ok_def room_wf_def by blast
    then have "hostId room \<in> fst ` set (js_delete s (room_players room))"
      using guest(2) by (auto simp: js_delete_set)
    from shrink_ok [OF ok guest(1) this] show ?thesis
      unfolding guest(3) by simp
  next
    case (transfer room k b rest)
    have "k \<in> fst ` set (js_delete s (room_players room))"
      unfolding transfer(3) by simp
    from shrink_ok [OF ok transfer(1) this] show ?thesis
      unfolding transfer(4) by simp
  next
    case (last room)
    from drop_room_ok [OF ok last(1) last(3)] show ?thesis
      unfolding last(4) by simp
  qed
qed

lemma step_ok: "manager_ok m \<Longrightarrow> manager_ok (step x m)"
  by (cases x)
    (simp_all add: createRoom_ok addPlayer_ok removePlayer_ok updateScore_ok giveScore_ok
      startGame_def nextRound_def startRoundPlaying_def handleBuzz_def showRoundResult_def
      resetRound_def on_room_ok keeps_startGame keeps_nextRound keeps_startRoundPlaying
      keeps_handleBuzz keeps_showRoundResult keeps_resetRound)

lemma exec_ok: "manager_ok m \<Longrightarrow> manager_ok (exec xs m)"
  by (induction xs arbitrary: m) (simp_all add: step_ok)

lemma reachable_ok: "manager_ok (exec xs empty_manager)"
  by (simp add: exec_ok manager_ok_empty)

section \<open>Lemmas on handleBuzz\<close>

lemma put_same: "rooms m rid = Some room \<Longrightarrow> m\<lparr>rooms := (rooms m)(rid \<mapsto> room)\<rparr> = m"
  by (simp add: map_upd_triv)

lemma on_room_other: "c \<noteq> rid \<Longrightarrow> rooms (snd (on_room c f m)) rid = rooms m rid"
  by (simp add: on_room_def split: option.splits prod.splits)

lemma on_room_same:
  "rooms m rid = Some room \<Longrightarrow> rooms (snd (on_room rid f m)) rid = Some (snd (f room))"
  by (simp add: on_room_def split: prod.splits)

lemma on_room_none: "rooms m rid = None \<Longrightarrow> rooms (snd (on_room c f m)) rid = None"
  by (auto simp: on_room_def split: option.splits prod.splits)

lemma on_room_winner:
  assumes "winner_kept rid w t m" "keeps_winner f"
  shows "winner_kept rid w t (snd (on_room c f m))"
proof (cases "c = rid")
  case False
  then show ?thesis using assms(1) by (simp add: winner_kept_def on_room_other)
next
  case True
  show ?thesis
  proof (cases "rooms m rid")
    case None
    then show ?thesis by (simp add: winner_kept_def on_room_none)
  next
    case (Some room)
    have "case currentRound (snd (f room)) of
               None \<Rightarrow> True
             | Some r' \<Rightarrow> (\<exists>r. currentRound room = Some r \<and>
                   (buzzedPlayerId r \<noteq> None \<longrightarrow>
                      buzzedPlayerId r' = buzzedPlayerId r \<and> buzzTime r' = buzzTime r))"
      using assms(2) unfolding keeps_winner_def by blast
    then show ?thesis
      using assms(1) Some True
      by (auto simp: winner_kept_def on_room_same split: option.splits)
  qed
qed

lemma kw_startGame: "keeps_winner startGame_room"
  by (simp add: keeps_winner_def startGame_room_def split: option.splits)

lemma kw_startRoundPlaying: "keeps_winner (startRoundPlaying_room now)"
  by (simp add: keeps_winner_def startRoundPlaying_room_def split: option.splits)

lemma kw_handleBuzz: "keeps_winner (handleBuzz_room p now)"
  by (simp add: keeps_winner_def handleBuzz_room_def split: option.splits)

lemma kw_showRoundResult: "keeps_winner showRoundResult_room"
  by (simp add: keeps_winner_def showRoundResult_room_def split: option.splits)

lemma createRoom_winner:
  "winner_kept rid w t m \<Longrightarrow> winner_kept rid w t (snd (createRoom h n c rendered r m))"
  by (simp add: winner_kept_def createRoom_def Let_def split: option.splits)

lemma addPlayer_winner:
  "winner_kept rid w t m \<Longrightarrow> winner_kept rid w t (snd (addPlayer s n c r m))"
  by (auto simp: winner_kept_def addPlayer_def Let_def split: option.splits)

lemma updateScore_winner:
  "winner_kept rid w t m \<Longrightarrow> winner_kept rid w t (snd (updateScore c p d m))"
  by (simp add: winner_kept_def updateScore_def split: option.splits)

lemma removePlayer_rooms:
  "rooms (snd (removePlayer s m)) rid = Some room' \<Longrightarrow>
   \<exists>room. rooms m rid = Some room \<and> currentRound room' = currentRound room"
  by (auto simp: removePlayer_def Let_def split: option.splits if_splits list.splits)

lemma removePlayer_winner:
  "winner_kept rid w t m \<Longrightarrow> winner_kept rid w t (snd (removePlayer s m))"
  using removePlayer_rooms [of s m rid]
  by (auto simp: winner_kept_def split: option.splits)

lemma step_winner:
  "winner_kept rid w t m \<Longrightarrow> \<not> replaces_round rid x \<Longrightarrow> winner_kept rid w t (step x m)"
proof (cases x)
  case (NextRound c rnd now)
  assume "winner_kept rid w t m" "\<not> replaces_round rid x"
  then show ?thesis using NextRound
    by (simp add: winner_kept_def nextRound_def on_room_other)
next
  case (ResetRound c rnd now)
  assume "winner_kept rid w t m" "\<not> replaces_round rid x"
  then show ?thesis using ResetRound
    by (simp add: winner_kept_def resetRound_def on_room_other)
qed (simp_all add: createRoom_winner addPlayer_winner removePlayer_winner updateScore_winner
      giveScore_def startGame_def startRoundPlaying_def handleBuzz_def showRoundResult_def
      on_room_winner kw_startGame kw_startRoundPlaying kw_handleBuzz kw_showRoundResult)

lemma exec_winner:
  "winner_kept rid w t m \<Longrightarrow> \<forall>x \<in> set xs. \<not> replaces_round rid x
   \<Longrightarrow> winner_kept rid w t (exec xs m)"
  by (induction xs arbitrary: m) (simp_all add: step_winner)

lemma playing_room:
  "rooms playing ''QUIZ01'' =
     Some \<lparr>room_id = ''QUIZ01'', hostId = ''s1'', state = ROUND_PLAYING,
           room_players = [(''s1'', 0), (''s2'', 1)],
           currentRound = Some \<lparr>song = SONGS ! 0, buzzedPlayerId = None, startTime = 3000,
                                 buzzTime = None, isKaraoke = False\<rparr>,
           roundNumber = 1, totalRounds = 10, songsPlayed = [''song-001'']\<rparr>"
  by (simp add: playing_def empty_manager_def createRoom_def addPlayer_def Let_def
      nextRound_def on_room_def nextRound_room_def startGame_room_def selectSong.simps maxAttempts_def
      getRandomSong_eval SONGS_def startRoundPlaying_def startRoundPlaying_room_def)

lemma two_rooms_room:
  "rooms two_rooms ''QUIZ01'' =
     Some \<lparr>room_id = ''QUIZ01'', hostId = ''s1'', state = ROUND_PLAYING,
           room_players = [(''s1'', 0), (''s2'', 1)],
           currentRound = Some \<lparr>song = SONGS ! 0, buzzedPlayerId = None, startTime = 3000,
                                 buzzTime = None, isKaraoke = False\<rparr>,
           roundNumber = 1, totalRounds = 10, songsPlayed = [''song-001'']\<rparr>"
  by (simp add: two_rooms_def empty_manager_def createRoom_def addPlayer_def Let_def
      nextRound_def on_room_def nextRound_room_def startGame_room_def selectSong.simps maxAttempts_def
      getRandomSong_eval SONGS_def startRoundPlaying_def startRoundPlaying_room_def)

lemma two_rooms_players:
  "players two_rooms ''s3'' = Some 2 \<and> roomId (store two_rooms 2) = ''OTHER1''
   \<and> players two_rooms ''nobody'' = None"
  by (simp add: two_rooms_def empty_manager_def createRoom_def addPlayer_def Let_def
      nextRound_def on_room_def nextRound_room_def startGame_room_def selectSong.simps maxAttempts_def
      getRandomSong_eval SONGS_def startRoundPlaying_def startRoundPlaying_room_def
      split: prod.splits)

lemma locked_room:
  "rooms locked ''QUIZ01'' =
     Some \<lparr>room_id = ''QUIZ01'', hostId = ''s1'', state = ROUND_LOCKED,
           room_players = [(''s1'', 0), (''s2'', 1)],
           currentRound = Some \<lparr>song = SONGS ! 0, buzzedPlayerId = Some ''s2'',
                                 startTime = 3000, buzzTime = Some 4000, isKaraoke = False\<rparr>,
           roundNumber = 1, totalRounds = 10, songsPlayed = [''song-001'']\<rparr>"
  by (simp add: locked_def handleBuzz_def on_room_def handleBuzz_room_def playing_room)

lemma solo_eval:
  "solo = \<lparr>rooms = [''4FZYO8'' \<mapsto> \<lparr>room_id = ''4FZYO8'', hostId = ''s1'', state = LOBBY,
             room_players = [(''s1'', 0)], currentRound = None, roundNumber = 0,
             totalRounds = 10, songsPlayed = []\<rparr>],
           players = [''s1'' \<mapsto> 0],
           store = (\<lambda>_. unallocated)(0 := \<lparr>player_id = ''s1'', socketId = ''s1'',
             name = ''Ana'', score = Fin 0, avatar = 4, roomId = ''4FZYO8''\<rparr>),
           next_ref = 1\<rparr>"
proof -
  have "generateRoomId ''0.4fzyo82mvyr'' = ''4FZYO8''" by code_simp
  then show ?thesis
    by (simp add: solo_def empty_manager_def createRoom_def Let_def generateAvatar_eval)
qed

section \<open>Lemmas on nextRound\<close>

lemma selectSong_exhaust:
  "attempts < maxAttempts \<Longrightarrow>
   \<forall>k. attempts \<le> k \<and> Suc k < maxAttempts \<longrightarrow>
       (\<exists>s. getRandomSong (rnd k) = Some s \<and> song_id s \<in> set played) \<Longrightarrow>
   selectSong rnd played attempts = ([], getRandomSong (rnd maxAttempts))"
proof (induction rnd played attempts rule: selectSong.induct)
  case (1 rnd played attempts)
  show ?case
  proof (cases "maxAttempts \<le> Suc attempts")
    case True
    then have "Suc attempts = maxAttempts" using "1.prems"(1) by simp
    then show ?thesis using True by (simp add: selectSong.simps [of rnd played attempts])
  next
    case False
    then obtain s where s: "getRandomSong (rnd attempts) = Some s" "song_id s \<in> set played"
      using "1.prems"(2) by auto
    have "selectSong rnd played (Suc attempts)
            = ([], getRandomSong (rnd maxAttempts))"
      using "1.IH" [OF False s] False "1.prems"(2) by simp
    then show ?thesis
      using False s by (simp add: selectSong.simps [of rnd played attempts])
  qed
qed

lemma selectSong_result:
  "selectSong rnd played attempts = (played', sg) \<Longrightarrow> attempts < maxAttempts \<Longrightarrow>
   (played' = played \<and> (\<forall>s. sg = Some s \<longrightarrow> song_id s \<notin> set played)
      \<and> (\<exists>k. attempts \<le> k \<and> Suc k < maxAttempts \<and> sg = getRandomSong (rnd k)))
   \<or> (played' = [] \<and> sg = getRandomSong (rnd maxAttempts)
      \<and> (\<forall>k. attempts \<le> k \<and> Suc k < maxAttempts \<longrightarrow>
            (\<exists>s. getRandomSong (rnd k) = Some s \<and> song_id s \<in> set played)))"
proof (induction rnd played attempts rule: selectSong.induct)
  case (1 rnd played attempts)
  show ?case
  proof (cases "maxAttempts \<le> Suc attempts")
    case True
    then have "Suc attempts = maxAttempts" using "1.prems"(2) by simp
    then show ?thesis
      using True "1.prems"(1) by (auto simp: selectSong.simps [of rnd played attempts])
  next
    case False
    show ?thesis
    proof (cases "getRandomSong (rnd attempts)")
      case None
      then have "played' = played" "sg = None"
        using False "1.prems"(1) by (simp_all add: selectSong.simps [of rnd played attempts])
      then show ?thesis using None False by auto
    next
      case (Some s)
      show ?thesis
      proof (cases "song_id s \<in> set played")
        case nin: False
        then have "played' = played" "sg = Some s"
          using False Some "1.prems"(1)
          by (simp_all add: selectSong.simps [of rnd played attempts])
        then show ?thesis using Some False nin by auto
      next
        case True
        then have rec: "selectSong rnd played (Suc attempts) = (played', sg)"
          using False Some "1.prems"(1)
          by (simp add: selectSong.simps [of rnd played attempts])
        have lt: "Suc attempts < maxAttempts" using False by simp
        from "1.IH" [OF False Some True rec lt]
        show ?thesis
        proof (elim disjE conjE exE)
          fix k
          assume "played' = played" "\<forall>s. sg = Some s \<longrightarrow> song_id s \<notin> set played"
            "Suc attempts \<le> k" "Suc k < maxAttempts" "sg = getRandomSong (rnd k)"
          then show ?thesis by (intro disjI1 conjI exI [of _ k]) simp_all
        next
          assume a: "played' = []" "sg = getRandomSong (rnd maxAttempts)"
            and b: "\<forall>k. Suc attempts \<le> k \<and> Suc k < maxAttempts \<longrightarrow>
               (\<exists>s. getRandomSong (rnd k) = Some s \<and> song_id s \<in> set played)"
          have "\<exists>s. getRandomSong (rnd k) = Some s \<and> song_id s \<in> set played"
            if "attempts \<le> k" "Suc k < maxAttempts" for k
          proof (cases "k = attempts")
            case True
            then show ?thesis using Some \<open>song_id s \<in> set played\<close> by simp
          next
            case False
            then show ?thesis using b that by simp
          qed
          then show ?thesis using a by blast
        qed
      qed
    qed
  qed
qed

lemma nextRound_on:
  "rooms m rid = Some room0 \<Longrightarrow>
   nextRound rnd now rid m =
     (fst (nextRound_room rnd now room0),
      m\<lparr>rooms := (rooms m)(rid \<mapsto> snd (nextRound_room rnd now room0))\<rparr>)"
  by (simp add: nextRound_def on_room_def split: prod.splits)

text \<open>Two shortcuts for running the loop: its first iteration, and a source stuck on a used song.\<close>

lemma selectSong_first:
  "selectSong rnd played 0 =
     (case getRandomSong (rnd 0) of
        Some s \<Rightarrow> if song_id s \<in> set played then selectSong rnd played (Suc 0)
                  else (played, Some s)
      | None \<Rightarrow> (played, None))"
  by (simp add: selectSong.simps [of rnd played 0] maxAttempts_def)

lemma selectSong_stuck:
  "(case getRandomSong c of Some s \<Rightarrow> song_id s \<in> set played | None \<Rightarrow> False) \<Longrightarrow>
   attempts < maxAttempts \<Longrightarrow>
   selectSong (\<lambda>k. c) played attempts = ([], getRandomSong c)"
  by (rule selectSong_exhaust) (auto split: option.splits)

lemma round_one_room:
  "rooms round_one ''QUIZ01'' =
     Some \<lparr>room_id = ''QUIZ01'', hostId = ''s1'', state = ROUND_LOADING,
           room_players = [(''s1'', 0), (''s2'', 1)],
           currentRound = Some \<lparr>song = SONGS ! 0, buzzedPlayerId = None, startTime = 1000,
                                 buzzTime = None, isKaraoke = False\<rparr>,
           roundNumber = 1, totalRounds = 10, songsPlayed = [''song-001'']\<rparr>"
  by (simp add: round_one_def empty_manager_def createRoom_def addPlayer_def Let_def
      nextRound_def on_room_def nextRound_room_def startGame_room_def selectSong_first
      getRandomSong_eval SONGS_def)

lemma ten_rounds_room:
  "rooms (exec ten_rounds empty_manager) ''QUIZ01'' =
     Some \<lparr>room_id = ''QUIZ01'', hostId = ''s1'', state = ROUND_LOADING,
           room_players = [(''s1'', 0), (''s2'', 1)],
           currentRound = Some \<lparr>song = SONGS ! 1, buzzedPlayerId = None, startTime = 10000,
                                 buzzTime = None, isKaraoke = True\<rparr>,
           roundNumber = 10, totalRounds = 10,
           songsPlayed = [''song-001'', ''song-002'']\<rparr>"
  by (simp add: ten_rounds_def empty_manager_def createRoom_def addPlayer_def Let_def
      nextRound_def on_room_def nextRound_room_def startGame_room_def selectSong_first
      selectSong_stuck maxAttempts_def getRandomSong_eval SONGS_def)

lemma resetRound_on:
  "rooms m rid = Some room0 \<Longrightarrow>
   resetRound rnd now rid m =
     (fst (resetRound_room rnd now room0),
      m\<lparr>rooms := (rooms m)(rid \<mapsto> snd (resetRound_room rnd now room0))\<rparr>)"
  by (simp add: resetRound_def on_room_def split: prod.splits)

lemma nextRound_room_over:
  assumes "state room \<noteq> LOBBY" and "totalRounds room \<le> roundNumber room"
  shows "nextRound_room rnd now room
           = (Inr (), room\<lparr>state := GAME_OVER, currentRound := None\<rparr>)"
  using assms by (simp add: nextRound_room_def)

lemma exec_append: "exec (xs @ ys) m = exec ys (exec xs m)"
  by (induction xs arbitrary: m) simp_all

lemma last_round_locked_room:
  "rooms last_round_locked ''QUIZ01'' =
     Some \<lparr>room_id = ''QUIZ01'', hostId = ''s1'', state = ROUND_LOCKED,
           room_players = [(''s1'', 0), (''s2'', 1)],
           currentRound = Some \<lparr>song = SONGS ! 1, buzzedPlayerId = Some ''s2'',
                                 startTime = 12000, buzzTime = Some 12500, isKaraoke = True\<rparr>,
           roundNumber = 10, totalRounds = 10,
           songsPlayed = [''song-001'', ''song-002'']\<rparr>"
  by (simp add: last_round_locked_def exec_append startRoundPlaying_def on_room_def
      startRoundPlaying_room_def handleBuzz_def handleBuzz_room_def ten_rounds_room)

section \<open>Lemmas on updateScore\<close>









section \<open>Lemmas on createRoom\<close>

text \<open>
  The generated code has six characters when the rendering of the random number has at
  least eight, fewer otherwise. Whatever the code, where no room of that code exists
  \<open>createRoom\<close> registers the caller as host and only member of a new room in state
  LOBBY, round counter 0, target 10, with a player object of score 0.
\<close>

lemma generateRoomId_length:
  "length (generateRoomId rendered) = min 6 (length rendered - 2)"
  by (simp add: generateRoomId_def)

lemma createRoom_generated:
  assumes "rooms m (generateRoomId rendered) = None"
  shows "createRoom h n None rendered r m =
           (Inr (generateRoomId rendered),
            m\<lparr>rooms := (rooms m)(generateRoomId rendered \<mapsto>
                   \<lparr>room_id = generateRoomId rendered, hostId = h, state = LOBBY,
                     room_players = [(h, next_ref m)], currentRound = None,
                     roundNumber = 0, totalRounds = 10, songsPlayed = []\<rparr>),
              players := (players m)(h \<mapsto> next_ref m),
              store := (store m)(next_ref m :=
                   \<lparr>player_id = h, socketId = h, name = n, score = Fin 0,
                     avatar = generateAvatar r, roomId = generateRoomId rendered\<rparr>),
              next_ref := Suc (next_ref m)\<rparr>)"
  using assms by (simp add: createRoom_def Let_def)

section \<open>Lemmas on membership\<close>

text \<open>
  What does hold of memberships in every manager reached from the empty one: within one
  room a session identifier appears at most once; an index entry is the membership
  record of the session in the room the record names; and \<open>addPlayer\<close> for a member of
  the target room returns the existing record and changes nothing.
\<close>

lemma membership_per_room:
  assumes "m = exec xs empty_manager"
  shows "(\<forall>rid room. rooms m rid = Some room \<longrightarrow> distinct (map fst (room_players room)))
       \<and> (\<forall>s a. players m s = Some a \<longrightarrow>
             (\<exists>room. rooms m (roomId (store m a)) = Some room
                \<and> map_of (room_players room) s = Some a))
       \<and> (\<forall>s n rid r room a. rooms m rid = Some room
              \<and> map_of (room_players room) s = Some a \<longrightarrow>
            addPlayer s n rid r m = (Inr a, m))"
proof -
  have ok: "manager_ok m" using assms by (simp add: reachable_ok)
  show ?thesis
  proof (intro conjI allI impI)
    fix rid room
    assume "rooms m rid = Some room"
    then show "distinct (map fst (room_players room))"
      using ok unfolding manager_ok_def room_wf_def by blast
  next
    fix s a
    assume p: "players m s = Some a"
    from index_target [OF ok p] obtain room where
      r: "rooms m (roomId (store m a)) = Some room" "(s, a) \<in> set (room_players room)"
      by blast
    have "distinct (map fst (room_players room))"
      using ok r(1) unfolding manager_ok_def room_wf_def by blast
    then have "map_of (room_players room) s = Some a"
      using r(2) by simp
    then show "\<exists>room. rooms m (roomId (store m a)) = Some room
                \<and> map_of (room_players room) s = Some a"
      using r(1) by blast
  next
    fix s n rid r room a
    assume "rooms m rid = Some room \<and> map_of (room_players room) s = Some a"
    then show "addPlayer s n rid r m = (Inr a, m)"
      by (simp add: addPlayer_def)
  qed
qed

section \<open>Claims\<close>

text \<open>
  C1, as the code has it. \<open>handleBuzz\<close> throws 'Room not found' when the room does not
  exist. For an existing room it returns false, changing nothing, when the state is not
  ROUND_PLAYING, when no transient round is present, or when a buzz is already recorded;
  otherwise it returns true, records the caller's identifier and the timestamp, moves
  the room to ROUND_LOCKED, and every further call on the room returns false.
\<close>

theorem handleBuzz_outcomes:
  "(rooms m rid = None \<longrightarrow> handleBuzz rid p now m = (Inl RoomNotFound, m))
   \<and> (\<forall>room. rooms m rid = Some room
          \<and> (state room \<noteq> ROUND_PLAYING \<or> currentRound room = None
              \<or> (\<exists>r w. currentRound room = Some r \<and> buzzedPlayerId r = Some w))
        \<longrightarrow> handleBuzz rid p now m = (Inr False, m))
   \<and> (\<forall>room r. rooms m rid = Some room \<and> state room = ROUND_PLAYING
          \<and> currentRound room = Some r \<and> buzzedPlayerId r = None
        \<longrightarrow> handleBuzz rid p now m =
              (Inr True,
               m\<lparr>rooms := (rooms m)(rid \<mapsto>
                    room\<lparr>currentRound :=
                           Some (r\<lparr>buzzedPlayerId := Some p, buzzTime := Some now\<rparr>),
                         state := ROUND_LOCKED\<rparr>)\<rparr>)
            \<and> (\<forall>p' now'. fst (handleBuzz rid p' now' (snd (handleBuzz rid p now m))) = Inr False))"
proof (intro conjI allI impI)
  assume "rooms m rid = None"
  then show "handleBuzz rid p now m = (Inl RoomNotFound, m)"
    by (simp add: handleBuzz_def on_room_def)
next
  fix room
  assume a: "rooms m rid = Some room
          \<and> (state room \<noteq> ROUND_PLAYING \<or> currentRound room = None
              \<or> (\<exists>r w. currentRound room = Some r \<and> buzzedPlayerId r = Some w))"
  then have "handleBuzz_room p now room = (Inr False, room)"
    by (auto simp: handleBuzz_room_def)
  then show "handleBuzz rid p now m = (Inr False, m)"
    using a by (simp add: handleBuzz_def on_room_def put_same)
next
  fix room r
  assume a: "rooms m rid = Some room \<and> state room = ROUND_PLAYING
          \<and> currentRound room = Some r \<and> buzzedPlayerId r = None"
  then show "handleBuzz rid p now m =
              (Inr True,
               m\<lparr>rooms := (rooms m)(rid \<mapsto>
                    room\<lparr>currentRound :=
                           Some (r\<lparr>buzzedPlayerId := Some p, buzzTime := Some now\<rparr>),
                         state := ROUND_LOCKED\<rparr>)\<rparr>)"
    by (simp add: handleBuzz_def on_room_def handleBuzz_room_def)
  then show "fst (handleBuzz rid p' now' (snd (handleBuzz rid p now m))) = Inr False" for p' now'
    by (simp add: handleBuzz_def on_room_def handleBuzz_room_def)
qed

theorem handleBuzz_outcomes_witness:
  "fst (handleBuzz ''NOROOM'' ''s2'' 4000 playing) = Inl RoomNotFound
   \<and> fst (handleBuzz ''QUIZ01'' ''s2'' 4000 playing) = Inr True
   \<and> fst (handleBuzz ''QUIZ01'' ''s1'' 4001 (snd (handleBuzz ''QUIZ01'' ''s2'' 4000 playing)))
       = Inr False"
proof -
  have "rooms playing ''NOROOM'' = None"
    by (simp add: playing_def empty_manager_def createRoom_def addPlayer_def Let_def
      nextRound_def on_room_def nextRound_room_def startGame_room_def selectSong.simps maxAttempts_def
      getRandomSong_eval SONGS_def startRoundPlaying_def startRoundPlaying_room_def
      split: prod.splits)
  then have a: "handleBuzz ''NOROOM'' ''s2'' 4000 playing = (Inl RoomNotFound, playing)"
    using handleBuzz_outcomes [of playing "''NOROOM''" "''s2''" 4000] by blast
  have "\<exists>R RR. rooms playing ''QUIZ01'' = Some R \<and> state R = ROUND_PLAYING
           \<and> currentRound R = Some RR \<and> buzzedPlayerId RR = None"
    by (simp add: playing_room)
  then obtain R RR where "rooms playing ''QUIZ01'' = Some R \<and> state R = ROUND_PLAYING
           \<and> currentRound R = Some RR \<and> buzzedPlayerId RR = None"
    by blast
  then have b: "handleBuzz ''QUIZ01'' ''s2'' 4000 playing =
              (Inr True,
               playing\<lparr>rooms := (rooms playing)(''QUIZ01'' \<mapsto>
                    R\<lparr>currentRound :=
                           Some (RR\<lparr>buzzedPlayerId := Some ''s2'', buzzTime := Some 4000\<rparr>),
                         state := ROUND_LOCKED\<rparr>)\<rparr>)
            \<and> (\<forall>p' now'. fst (handleBuzz ''QUIZ01'' p' now'
                  (snd (handleBuzz ''QUIZ01'' ''s2'' 4000 playing))) = Inr False)"
    using handleBuzz_outcomes [of playing "''QUIZ01''" "''s2''" 4000] by blast
  from b have c: "fst (handleBuzz ''QUIZ01'' ''s1'' 4001
                  (snd (handleBuzz ''QUIZ01'' ''s2'' 4000 playing))) = Inr False"
    by blast
  from b have d: "fst (handleBuzz ''QUIZ01'' ''s2'' 4000 playing) = Inr True"
    by (simp only: fst_conv)
  from a have e: "fst (handleBuzz ''NOROOM'' ''s2'' 4000 playing) = Inl RoomNotFound"
    by (simp only: fst_conv)
  from e d c show ?thesis by (intro conjI)
qed

text \<open>
  C1 as stated fails: on a manager without the room, \<open>handleBuzz\<close> signals the error
  instead of returning false.
\<close>

theorem handleBuzz_missing_room:
  "fst (handleBuzz ''ABCDEF'' ''s1'' 0 empty_manager) = Inl RoomNotFound
   \<and> fst (handleBuzz ''ABCDEF'' ''s1'' 0 empty_manager) \<noteq> Inr False"
  by (simp add: handleBuzz_def on_room_def empty_manager_def)

text \<open>
  C2. Once the round of a room records a buzz winner, then after any sequence of manager
  operations that does not replace the round (no \<open>nextRound\<close> or \<open>resetRound\<close> on that
  room), the round of the room, if the room still has one, records the same winner and
  the same buzz timestamp, and a \<open>handleBuzz\<close> call on it returns false and changes
  nothing.
\<close>

theorem buzz_winner_immutable:
  assumes "rooms m rid = Some room" and "currentRound room = Some r"
    and "buzzedPlayerId r = Some w"
    and "\<forall>x \<in> set xs. \<not> replaces_round rid x"
    and "rooms (exec xs m) rid = Some room'" and "currentRound room' = Some r'"
  shows "buzzedPlayerId r' = Some w \<and> buzzTime r' = buzzTime r
         \<and> handleBuzz rid p now (exec xs m) = (Inr False, exec xs m)"
proof -
  have "winner_kept rid w (buzzTime r) m"
    using assms(1-3) by (simp add: winner_kept_def)
  then have "winner_kept rid w (buzzTime r) (exec xs m)"
    using assms(4) by (rule exec_winner)
  then have k: "buzzedPlayerId r' = Some w" "buzzTime r' = buzzTime r"
    using assms(5,6) by (simp_all add: winner_kept_def)
  have "handleBuzz_room p now room' = (Inr False, room')"
    using k(1) assms(6) by (simp add: handleBuzz_room_def)
  then have "handleBuzz rid p now (exec xs m) = (Inr False, exec xs m)"
    using assms(5) by (simp add: handleBuzz_def on_room_def put_same)
  then show ?thesis using k by simp
qed

theorem buzz_winner_immutable_witness:
  "map_option (map_option buzzedPlayerId \<circ> currentRound)
     (rooms (exec [HandleBuzz ''QUIZ01'' ''s1'' 4001, ShowRoundResult ''QUIZ01'',
                         UpdateScore ''QUIZ01'' ''s2'' (Fin 1)] locked) ''QUIZ01'')
     = Some (Some (Some ''s2''))
   \<and> fst (handleBuzz ''QUIZ01'' ''s1'' 4002
        (exec [HandleBuzz ''QUIZ01'' ''s1'' 4001, ShowRoundResult ''QUIZ01'',
                     UpdateScore ''QUIZ01'' ''s2'' (Fin 1)] locked)) = Inr False"
proof -
  let ?xs = "[HandleBuzz ''QUIZ01'' ''s1'' 4001, ShowRoundResult ''QUIZ01'',
              UpdateScore ''QUIZ01'' ''s2'' (Fin 1)]"
  have after: "rooms (exec ?xs locked) ''QUIZ01'' =
     Some \<lparr>room_id = ''QUIZ01'', hostId = ''s1'', state = ROUND_RESULT,
           room_players = [(''s1'', 0), (''s2'', 1)],
           currentRound = Some \<lparr>song = SONGS ! 0, buzzedPlayerId = Some ''s2'',
                                 startTime = 3000, buzzTime = Some 4000, isKaraoke = False\<rparr>,
           roundNumber = 1, totalRounds = 10, songsPlayed = [''song-001'']\<rparr>"
    by (simp add: handleBuzz_def on_room_def handleBuzz_room_def locked_room
        showRoundResult_def showRoundResult_room_def updateScore_def)
  have nr: "\<forall>x \<in> set ?xs. \<not> replaces_round ''QUIZ01'' x" by simp
  from buzz_winner_immutable [OF locked_room _ _ nr after, of _ "''s2''" _ "''s1''" 4002]
  show ?thesis by (simp del: exec.simps add: after)
qed

text \<open>
  C3. In every manager reached from the empty one by any sequence of operations, every
  registered room has its host among its members, hence at least one member; and when
  \<open>removePlayer\<close> removes the last member of a room, the same call deletes the room from
  the registry and returns no affected room.
\<close>

theorem rooms_never_empty:
  assumes "m = exec xs empty_manager"
  shows "(\<forall>rid room. rooms m rid = Some room \<longrightarrow>
            room_players room \<noteq> [] \<and> hostId room \<in> fst ` set (room_players room))
       \<and> (\<forall>s a room. players m s = Some a \<and> rooms m (roomId (store m a)) = Some room
              \<and> js_delete s (room_players room) = [] \<longrightarrow>
            removePlayer s m =
              ((None, Some a),
               m\<lparr>rooms := (rooms m)(roomId (store m a) := None),
                 players := (players m)(s := None)\<rparr>))"
proof -
  have ok: "manager_ok m" using assms by (simp add: reachable_ok)
  show ?thesis
  proof (intro conjI allI impI)
    fix rid room
    assume "rooms m rid = Some room"
    then have "hostId room \<in> fst ` set (room_players room)"
      using ok unfolding manager_ok_def room_wf_def by blast
    then show "room_players room \<noteq> []" "hostId room \<in> fst ` set (room_players room)"
      by auto
  next
    fix s a room
    assume h: "players m s = Some a \<and> rooms m (roomId (store m a)) = Some room
              \<and> js_delete s (room_players room) = []"
    then have p: "players m s = Some a" by simp
    from ok p show "removePlayer s m =
              ((None, Some a),
               m\<lparr>rooms := (rooms m)(roomId (store m a) := None),
                 players := (players m)(s := None)\<rparr>)"
    proof (cases rule: removePlayer_cases)
      case (guest room')
      then have "room' = room" using h by simp
      moreover have "hostId room' \<in> fst ` set (room_players room')"
        using ok guest(1) unfolding manager_ok_def room_wf_def by blast
      ultimately have "hostId room' \<in> fst ` set (js_delete s (room_players room))"
        using guest(2) by (auto simp: js_delete_set)
      then show ?thesis using h by simp
    next
      case (transfer room' k b rest)
      then show ?thesis using h by simp
    next
      case (last room')
      then show ?thesis by simp
    qed
  qed
qed

theorem rooms_never_empty_witness:
  "map_option room_players (rooms solo ''4FZYO8'') = Some [(''s1'', 0)]
   \<and> fst (removePlayer ''s1'' solo) = (None, Some 0)
   \<and> rooms (snd (removePlayer ''s1'' solo)) ''4FZYO8'' = None"
proof -
  note t = rooms_never_empty [OF solo_def]
  have a: "players solo ''s1'' = Some 0" by (simp add: solo_eval)
  have b: "roomId (store solo 0) = ''4FZYO8''" by (simp add: solo_eval)
  have "\<exists>room. rooms solo ''4FZYO8'' = Some room \<and> js_delete ''s1'' (room_players room) = []
          \<and> room_players room = [(''s1'', 0)]"
    by (simp add: solo_eval js_delete_def)
  then obtain room where c: "rooms solo ''4FZYO8'' = Some room"
    "js_delete ''s1'' (room_players room) = []" "room_players room = [(''s1'', 0)]" by blast
  have "removePlayer ''s1'' solo =
              ((None, Some 0),
               solo\<lparr>rooms := (rooms solo)(roomId (store solo 0) := None),
                 players := (players solo)(''s1'' := None)\<rparr>)"
    using t a c(2) c(1) [folded b] by blast
  then show ?thesis using b c by simp
qed

text \<open>
  C4. A session identifier can be in the membership maps of two rooms at once:
  \<open>addPlayer\<close> looks for the session only in the target room. Session \<open>s1\<close>, host and
  only member of room ROOMA1, joins room ROOMB1 and is then a member of both. When it
  disconnects, \<open>removePlayer\<close> takes it out of ROOMB1, the room its index record names, and
  drops the index entry; a second call finds no player. The session stays the only
  member and host of ROOMA1.
\<close>

theorem session_in_two_rooms:
  "map_option (map fst \<circ> room_players)
      (rooms (exec (take 2 double_join) empty_manager) ''ROOMA1'') = Some [''s1'']
   \<and> map_option (map fst \<circ> room_players)
      (rooms (exec (take 2 double_join) empty_manager) ''ROOMB1'') = Some [''s2'']
   \<and> map_option (map fst \<circ> room_players)
      (rooms (exec double_join empty_manager) ''ROOMA1'') = Some [''s1'']
   \<and> map_option (map fst \<circ> room_players)
      (rooms (exec double_join empty_manager) ''ROOMB1'') = Some [''s2'', ''s1'']
   \<and> map_option (\<lambda>room. (map fst (room_players room), hostId room))
      (rooms (exec join_and_leave empty_manager) ''ROOMA1'') = Some ([''s1''], ''s1'')
   \<and> map_option (map fst \<circ> room_players)
      (rooms (exec join_and_leave empty_manager) ''ROOMB1'') = Some [''s2'']
   \<and> players (exec join_and_leave empty_manager) ''s1'' = None"
  by (simp add: join_and_leave_def double_join_def empty_manager_def createRoom_def
      addPlayer_def removePlayer_def js_delete_def Let_def)

text \<open>
  C5. In every manager reached from the empty one, when \<open>nextRound\<close> installs a round,
  either the selected item was not in the used-set (the set as the selection sees it,
  after the reset of an implicit \<open>startGame\<close>) and is appended to it, or the catalog is
  smaller than the room's total-rounds target and the exhaustion path was taken: all of
  the first 99 draws were items of the used-set, the used-set is reset and the item of
  the draw after the 100th is taken. As long as \<open>Math.random()\<close> returns doubles in
  [0, 1), \<open>nextRound\<close> fails with NoContentAvailable only if the catalog is empty.
\<close>

theorem nextRound_selection:
  assumes "m = exec xs empty_manager" and "rooms m rid = Some room0"
    and "used = (if state room0 = LOBBY then [] else songsPlayed room0)"
  shows "(\<forall>room' r. fst (nextRound rnd now rid m) = Inr ()
            \<and> rooms (snd (nextRound rnd now rid m)) rid = Some room'
            \<and> currentRound room' = Some r \<longrightarrow>
          (song_id (song r) \<notin> set used \<and> songsPlayed room' = used @ [song_id (song r)])
          \<or> (int (length SONGS) < totalRounds room0
              \<and> (\<forall>k. Suc k < maxAttempts \<longrightarrow>
                   (\<exists>s. getRandomSong (rnd k) = Some s \<and> song_id s \<in> set used))
              \<and> getRandomSong (rnd maxAttempts) = Some (song r)
              \<and> songsPlayed room' = [song_id (song r)]))
       \<and> ((\<forall>k. fl (rnd k) = rnd k \<and> 0 \<le> rnd k \<and> rnd k < 1)
            \<and> fst (nextRound rnd now rid m) = Inl NoContentAvailable \<longrightarrow> SONGS = [])"
proof -
  have "manager_ok m" using assms(1) by (simp add: reachable_ok)
  then have "round_ok room0" using assms(2) unfolding manager_ok_def by blast
  then have small: "int (length SONGS) < totalRounds room0"
    by (simp add: round_ok_def length_SONGS)
  have used: "songsPlayed (started room0) = used"
    using assms(3) by (simp add: started_def)
  note on = nextRound_on [OF assms(2), of rnd now]
  show ?thesis
  proof (cases rule: nextRound_room_cases [of room0 rnd now])
    case insufficient
    then show ?thesis unfolding on by simp
  next
    case over
    then show ?thesis unfolding on by simp
  next
    case (nocontent played)
    from selectSong_result [OF nocontent(2)]
    have "(\<exists>k. getRandomSong (rnd k) = None)"
      by (simp add: maxAttempts_def) metis
    then obtain k where "getRandomSong (rnd k) = None" by blast
    then have "\<not> (fl (rnd k) = rnd k \<and> 0 \<le> rnd k \<and> rnd k < 1)"
      using getRandomSong_in_range [of "rnd k"] by auto
    then have "\<not> (\<forall>k. fl (rnd k) = rnd k \<and> 0 \<le> rnd k \<and> rnd k < 1)" by blast
    then show ?thesis unfolding on nocontent(3) by (simp, blast)
  next
    case (installed played s)
    from selectSong_result [OF installed(2)]
    have "(played = used \<and> song_id s \<notin> set used)
        \<or> (played = [] \<and> getRandomSong (rnd maxAttempts) = Some s
            \<and> (\<forall>k. Suc k < maxAttempts \<longrightarrow>
                 (\<exists>s. getRandomSong (rnd k) = Some s \<and> song_id s \<in> set used)))"
      unfolding used by (auto simp: maxAttempts_def)
    then show ?thesis unfolding on installed(3) using small by auto
  qed
qed

theorem nextRound_selection_witness:
  "fst (nextRound (\<lambda>k. 1/4) 2000 ''QUIZ01'' round_one) = Inr ()
   \<and> map_option songsPlayed
        (rooms (snd (nextRound (\<lambda>k. 1/4) 2000 ''QUIZ01'' round_one)) ''QUIZ01'')
      = Some [''song-001'', ''song-002'']
   \<and> ''song-002'' \<notin> set [''song-001'']
   \<and> SONGS \<noteq> []
   \<and> fst (nextRound (\<lambda>k. 1/4) 2000 ''QUIZ01'' round_one) \<noteq> Inl NoContentAvailable"
proof -
  have u: "[''song-001''] = (if state (the (rooms round_one ''QUIZ01'')) = LOBBY then []
                       else songsPlayed (the (rooms round_one ''QUIZ01'')))"
    by (simp add: round_one_room)
  have r: "rooms round_one ''QUIZ01'' = Some (the (rooms round_one ''QUIZ01''))"
    by (simp add: round_one_room)
  note t = nextRound_selection [OF round_one_def r u, of "\<lambda>k. 1/4" 2000]
  have ne: "SONGS \<noteq> []" using length_SONGS by auto
  have d: "\<forall>k::nat. fl (1/4) = (1/4 :: rat) \<and> (0::rat) \<le> 1/4 \<and> (1/4 :: rat) < 1"
    by (simp add: fl_fractions)
  have ok: "fst (nextRound (\<lambda>k. 1/4) 2000 ''QUIZ01'' round_one) \<noteq> Inl NoContentAvailable"
    using t ne d by blast
  have ev: "fst (nextRound (\<lambda>k. 1/4) 2000 ''QUIZ01'' round_one) = Inr ()"
    "map_option songsPlayed
        (rooms (snd (nextRound (\<lambda>k. 1/4) 2000 ''QUIZ01'' round_one)) ''QUIZ01'')
      = Some [''song-001'', ''song-002'']"
    by (simp_all add: nextRound_on [OF round_one_room] round_one_room nextRound_room_def
        selectSong_first getRandomSong_eval SONGS_def)
  show ?thesis using ev ok ne by simp
qed

text \<open>
  C6. In every manager reached from the empty one, the karaoke flag of a room's transient
  round is set if and only if the room's round counter equals its total-rounds target.
  The counter changes only where the round is replaced or cleared, so this is the
  counter at the time the round was installed.
\<close>

theorem karaoke_iff_final_round:
  assumes "m = exec xs empty_manager" and "rooms m rid = Some room"
    and "currentRound room = Some r"
  shows "isKaraoke r = (roundNumber room = totalRounds room)"
proof -
  have "manager_ok m" using assms(1) by (simp add: reachable_ok)
  then have "round_ok room" using assms(2) unfolding manager_ok_def by blast
  then show ?thesis using assms(3) by (simp add: round_ok_def)
qed

theorem karaoke_iff_final_round_witness:
  "map_option (\<lambda>room. (map_option isKaraoke (currentRound room), roundNumber room,
                         totalRounds room))
     (rooms (exec (take 3 ten_rounds) empty_manager) ''QUIZ01'')
     = Some (Some False, 1, 10)
   \<and> map_option (\<lambda>room. (map_option isKaraoke (currentRound room), roundNumber room,
                           totalRounds room))
       (rooms (exec ten_rounds empty_manager) ''QUIZ01'')
     = Some (Some True, 10, 10)"
proof -
  have one: "exec (take 3 ten_rounds) empty_manager = round_one"
    by (simp add: ten_rounds_def round_one_def)
  have "\<exists>room r. rooms round_one ''QUIZ01'' = Some room \<and> currentRound room = Some r
           \<and> roundNumber room = 1 \<and> totalRounds room = 10"
    by (simp add: round_one_room)
  then obtain room r where a: "rooms round_one ''QUIZ01'' = Some room"
    "currentRound room = Some r" "roundNumber room = 1" "totalRounds room = 10" by blast
  have "isKaraoke r = (roundNumber room = totalRounds room)"
    using karaoke_iff_final_round [OF round_one_def a(1) a(2)] .
  then have first: "map_option (\<lambda>room. (map_option isKaraoke (currentRound room),
        roundNumber room, totalRounds room)) (rooms round_one ''QUIZ01'') = Some (Some False, 1, 10)"
    using a by simp
  have "\<exists>room r. rooms (exec ten_rounds empty_manager) ''QUIZ01'' = Some room
           \<and> currentRound room = Some r \<and> roundNumber room = 10 \<and> totalRounds room = 10"
    by (simp add: ten_rounds_room)
  then obtain room' r' where b: "rooms (exec ten_rounds empty_manager) ''QUIZ01'' = Some room'"
    "currentRound room' = Some r'" "roundNumber room' = 10" "totalRounds room' = 10" by blast
  have "isKaraoke r' = (roundNumber room' = totalRounds room')"
    using karaoke_iff_final_round [OF refl b(1) b(2)] .
  then have last: "map_option (\<lambda>room. (map_option isKaraoke (currentRound room),
        roundNumber room, totalRounds room))
        (rooms (exec ten_rounds empty_manager) ''QUIZ01'') = Some (Some True, 10, 10)"
    using b by simp
  show ?thesis unfolding one using first last by (intro conjI)
qed

text \<open>
  C7. In every manager reached from the empty one, for a room whose round counter has
  reached its total-rounds target, \<open>nextRound\<close> succeeds and changes nothing but the
  room's state, which becomes GAME_OVER, and its transient round, which is cleared; so
  does \<open>resetRound\<close> from ROUND_LOCKED or ROUND_RESULT. The result does not depend on the
  random source (no content is selected), and the used-set, the round counter and the
  player objects with their scores are as before.
\<close>

theorem game_over_after_last_round:
  assumes "m = exec xs empty_manager" and "rooms m rid = Some room"
    and "totalRounds room \<le> roundNumber room"
  shows "nextRound rnd now rid m =
           (Inr (), m\<lparr>rooms := (rooms m)(rid \<mapsto> room\<lparr>state := GAME_OVER, currentRound := None\<rparr>)\<rparr>)
       \<and> (state room = ROUND_LOCKED \<or> state room = ROUND_RESULT \<longrightarrow>
            resetRound rnd now rid m =
              (Inr (),
               m\<lparr>rooms := (rooms m)(rid \<mapsto> room\<lparr>state := GAME_OVER, currentRound := None\<rparr>)\<rparr>))"
proof -
  have "manager_ok m" using assms(1) by (simp add: reachable_ok)
  then have "round_ok room" using assms(2) unfolding manager_ok_def by blast
  then have nl: "state room \<noteq> LOBBY" using assms(3) by (auto simp: round_ok_def)
  have a: "nextRound_room rnd now room
           = (Inr (), room\<lparr>state := GAME_OVER, currentRound := None\<rparr>)"
    using nl assms(3) by (rule nextRound_room_over)
  have b: "resetRound_room rnd now room
           = (Inr (), room\<lparr>state := GAME_OVER, currentRound := None\<rparr>)"
    if "state room = ROUND_LOCKED \<or> state room = ROUND_RESULT"
  proof -
    have "nextRound_room rnd now (room\<lparr>currentRound := None\<rparr>)
           = (Inr (), room\<lparr>currentRound := None\<rparr>\<lparr>state := GAME_OVER, currentRound := None\<rparr>)"
      using nl assms(3) by (intro nextRound_room_over) simp_all
    then show ?thesis using that by (simp add: resetRound_room_def)
  qed
  show ?thesis
    using a b by (simp add: nextRound_on [OF assms(2)] resetRound_on [OF assms(2)])
qed

theorem game_over_after_last_round_witness:
  "fst (resetRound (\<lambda>k. 0) 13000 ''QUIZ01'' last_round_locked) = Inr ()
   \<and> map_option (\<lambda>room. (state room, currentRound room, roundNumber room, songsPlayed room))
        (rooms (snd (resetRound (\<lambda>k. 0) 13000 ''QUIZ01'' last_round_locked)) ''QUIZ01'')
      = Some (GAME_OVER, None, 10,
              [''song-001'', ''song-002''])
   \<and> store (snd (resetRound (\<lambda>k. 0) 13000 ''QUIZ01'' last_round_locked))
      = store last_round_locked
   \<and> snd (nextRound (\<lambda>k. 0) 13000 ''QUIZ01'' last_round_locked)
      = snd (resetRound (\<lambda>k. 0) 13000 ''QUIZ01'' last_round_locked)"
proof -
  have "\<exists>room. rooms last_round_locked ''QUIZ01'' = Some room
          \<and> totalRounds room \<le> roundNumber room \<and> state room = ROUND_LOCKED
          \<and> roundNumber room = 10
          \<and> songsPlayed room = [''song-001'', ''song-002'']"
    by (simp add: last_round_locked_room)
  then obtain room where r: "rooms last_round_locked ''QUIZ01'' = Some room"
    "totalRounds room \<le> roundNumber room" "state room = ROUND_LOCKED" "roundNumber room = 10"
    "songsPlayed room = [''song-001'', ''song-002'']"
    by blast
  note t = game_over_after_last_round [OF last_round_locked_def r(1) r(2),
      of "\<lambda>k. 0" 13000]
  from t r(3) have
    a: "resetRound (\<lambda>k. 0) 13000 ''QUIZ01'' last_round_locked =
          (Inr (), last_round_locked\<lparr>rooms := (rooms last_round_locked)(''QUIZ01'' \<mapsto>
                     room\<lparr>state := GAME_OVER, currentRound := None\<rparr>)\<rparr>)"
    and b: "nextRound (\<lambda>k. 0) 13000 ''QUIZ01'' last_round_locked =
          (Inr (), last_round_locked\<lparr>rooms := (rooms last_round_locked)(''QUIZ01'' \<mapsto>
                     room\<lparr>state := GAME_OVER, currentRound := None\<rparr>)\<rparr>)"
    by blast+
  show ?thesis unfolding a b using r(4,5) by simp
qed




text \<open>
  C9. The code returned by \<open>createRoom\<close> without a desired code is not always a string
  of six characters: \<open>substring(2, 8)\<close> yields fewer when the base-36 rendering of the
  random number is short. \<open>Math.random()\<close> = 0.5 renders as "0.i" and gives the
  one-character code "I"; \<open>Math.random()\<close> = 0 renders as "0" and gives the empty code.
\<close>

theorem createRoom_short_code:
  "fst (createRoom ''s1'' ''Ana'' None ''0.i'' (1/4) empty_manager) = Inr ''I''
   \<and> length ''I'' = 1
   \<and> fst (createRoom ''s1'' ''Ana'' None ''0'' (1/4) empty_manager) = Inr ''''"
proof -
  have "generateRoomId ''0.i'' = ''I''" "generateRoomId ''0'' = ''''"
    by code_simp+
  then show ?thesis
    by (simp add: createRoom_def Let_def empty_manager_def)
qed

text \<open>
  C10. \<open>handleBuzz\<close> never looks at the membership of the room: in a room in state
  ROUND_PLAYING whose round has no buzz yet, a call with any identifier \<open>p\<close> returns
  true and records \<open>p\<close> as the winner. Nothing is assumed of \<open>p\<close>: it may be no player
  at all, or a player of another room.
\<close>

theorem buzz_ignores_membership:
  assumes "rooms m rid = Some room" and "state room = ROUND_PLAYING"
    and "currentRound room = Some r" and "buzzedPlayerId r = None"
  shows "handleBuzz rid p now m =
           (Inr True,
            m\<lparr>rooms := (rooms m)(rid \<mapsto>
                 room\<lparr>currentRound :=
                        Some (r\<lparr>buzzedPlayerId := Some p, buzzTime := Some now\<rparr>),
                      state := ROUND_LOCKED\<rparr>)\<rparr>)"
  using assms by (simp add: handleBuzz_def on_room_def handleBuzz_room_def)

theorem buzz_ignores_membership_witness:
  "players two_rooms ''nobody'' = None
   \<and> fst (handleBuzz ''QUIZ01'' ''nobody'' 4000 two_rooms) = Inr True
   \<and> map_option (map_option buzzedPlayerId \<circ> currentRound)
        (rooms (snd (handleBuzz ''QUIZ01'' ''nobody'' 4000 two_rooms)) ''QUIZ01'')
       = Some (Some (Some ''nobody''))
   \<and> map_option (roomId \<circ> store two_rooms) (players two_rooms ''s3'') = Some ''OTHER1''
   \<and> fst (handleBuzz ''QUIZ01'' ''s3'' 4000 two_rooms) = Inr True
   \<and> map_option (map_option buzzedPlayerId \<circ> currentRound)
        (rooms (snd (handleBuzz ''QUIZ01'' ''s3'' 4000 two_rooms)) ''QUIZ01'')
       = Some (Some (Some ''s3''))"
  using buzz_ignores_membership [OF two_rooms_room, of _ "''nobody''" 4000]
    buzz_ignores_membership [OF two_rooms_room, of _ "''s3''" 4000] two_rooms_players
  by simp

end
